theory Spec2Isabelle
  imports Main "HOL-Library.Word" "HOL-Library.AList" "HOL-Library.Code_Target_Nat"
begin

unbundle bit_operations_syntax

section \<open>The DarkFlare server (server/main.go): data model\<close>

text \<open>
  The server keeps a table of sessions, each holding one backend connection, and serves
  every HTTP request through \<open>handleRequest\<close>. The embedding is sequential: one call of
  the handler, or one pass of the reaper, runs from start to end on an explicit state.
  What the handler cannot know in advance (the clock, the outcome of a dial, of a write,
  of each read, of a subprocess) is given to it as an \<open>Env\<close>; what it does to the
  outside (table operations, socket calls, mutex calls) is appended to a trace.
\<close>

type_synonym byte = "8 word"

text \<open>A \<open>net.Conn\<close> by identity: the n-th connection the server has dialled.\<close>
type_synonym conn_id = nat

text \<open>
  A \<open>time.Time\<close> as the reading of Go's monotonic clock in nanoseconds, a
  \<open>time.Duration\<close> in nanoseconds.
\<close>
type_synonym instant = nat

definition Millisecond :: nat where
  "Millisecond = 1000000"

definition Minute :: nat where
  "Minute = 60 * (1000 * Millisecond)"

text \<open>
  \<open>type Session struct\<close>. The mutex \<open>mu\<close> has no field: in a sequential run it is
  free between two calls, and the calls of \<open>Lock\<close> and \<open>Unlock\<close> are events of the trace.
\<close>
record Session =
  conn :: conn_id
  lastActive :: instant
  buffer :: "byte list"

text \<open>
  \<open>type Server struct\<close>. The \<open>sync.Map\<close> is an association list from session-id to
  the session stored under it; \<open>Load\<close>, \<open>Store\<close>, \<open>Delete\<close> are \<open>map_of\<close>,
  \<open>AList.update\<close>, \<open>AList.delete\<close>.
\<close>
record Server =
  sessions :: "(string \<times> Session) list"
  destHost :: string
  destPort :: string
  debug :: bool
  appCommand :: string
  isAppMode :: bool
  allowDirect :: bool

text \<open>
  The errors a \<open>Read\<close> on a TCP connection returns: \<open>io.EOF\<close>, or a \<open>net.Error\<close>
  (\<open>*net.OpError\<close>) with its \<open>Timeout()\<close> and its \<open>Error()\<close> text.
\<close>
datatype go_error = EOF | NetError bool string

fun Timeout :: "go_error \<Rightarrow> bool" where
  "Timeout EOF = False"
| "Timeout (NetError t msg) = t"

fun Error_text :: "go_error \<Rightarrow> string" where
  "Error_text EOF = ''EOF''"
| "Error_text (NetError t msg) = msg"

datatype read_result = ReadOk "byte list" | ReadErr go_error

text \<open>
  An \<open>http.Request\<close>: the header has canonical keys, as net/http stores them; \<open>Body\<close>
  is what \<open>io.ReadAll(r.Body)\<close> returns, the error's text or the data.
\<close>
record Request =
  Method :: string
  Path :: string
  Header :: "(string \<times> string list) list"
  Body :: "string + byte list"

definition Header_Get :: "(string \<times> string list) list \<Rightarrow> string \<Rightarrow> string" where
  "Header_Get h k = (case map_of h k of Some (v # vs) \<Rightarrow> v | _ \<Rightarrow> [])"

text \<open>
  The \<open>http.ResponseWriter\<close> as the response it ends in: the status is 200 unless
  \<open>http.Error\<close> sets another one.
\<close>
record Response =
  status :: nat
  hdr :: "(string \<times> string) list"
  body :: string

definition new_Response :: Response where
  "new_Response = \<lparr>status = 200, hdr = [], body = []\<rparr>"

definition Header_Set :: "string \<Rightarrow> string \<Rightarrow> Response \<Rightarrow> Response" where
  "Header_Set k v w = w\<lparr>hdr := AList.update k v (hdr w)\<rparr>"

text \<open>
  \<open>http.Error\<close> of net/http: the content type becomes plain text, the status is the
  code, and the body is the message as one line.
\<close>
definition http_Error :: "Response \<Rightarrow> string \<Rightarrow> nat \<Rightarrow> Response" where
  "http_Error w msg code =
     w\<lparr>status := code,
       hdr := AList.update ''X-Content-Type-Options'' ''nosniff''
                (AList.update ''Content-Type'' ''text/plain; charset=utf-8'' (hdr w)),
       body := body w @ msg @ [CHR 0x0A]\<rparr>"

definition w_Write :: "string \<Rightarrow> Response \<Rightarrow> Response" where
  "w_Write data w = w\<lparr>body := body w @ data\<rparr>"

text \<open>
  How a call of the handler ends: with a response, or in a panic (net/http recovers it
  and aborts the connection, so that the client gets no response).
\<close>
datatype outcome = Replied Response | Panicked

text \<open>What the server does to the outside, and the goroutines it starts, in order.\<close>
datatype event =
    Load string
  | Store string conn_id
  | Delete string
  | Dial string "string + conn_id"
  | Lock conn_id
  | Unlock conn_id
  | ReadAll
  | ConnWrite conn_id "byte list" "string option"
  | SetReadDeadline conn_id instant
  | ConnRead conn_id nat read_result
  | ConnClose conn_id
  | CmdStart "string list" "string option"
  | Go string
  | CmdWait "string option"

text \<open>A call of \<open>log.Printf\<close>: the format and its arguments.\<close>
datatype arg = S string | N nat | H "(string \<times> string list) list"

datatype logrec = Printf string "arg list"

record World =
  clock :: instant
  dialed :: nat
  trace :: "event list"
  logs :: "logrec list"

text \<open>
  What one call meets: the time that passes before each reading of \<open>time.Now()\<close>
  (at the creation of a session, after \<open>Lock\<close>, and before the k-th \<open>Read\<close>), the
  outcome of \<open>net.Dial\<close>, of \<open>conn.Write\<close> (the error's text, if any), of the k-th
  \<open>conn.Read\<close>, and in application mode the outcomes of the pipes, of \<open>cmd.Start\<close> and
  of \<open>cmd.Wait\<close>.
\<close>
record Env =
  now_create :: nat
  now_lock :: nat
  now_read :: "nat \<Rightarrow> nat"
  dial_result :: "string option"
  write_result :: "string option"
  read_results :: "nat \<Rightarrow> read_result"
  stdout_pipe :: "string option"
  stderr_pipe :: "string option"
  start_result :: "string option"
  wait_result :: "string option"

definition emit :: "event list \<Rightarrow> World \<Rightarrow> World" where
  "emit es wd = wd\<lparr>trace := trace wd @ es\<rparr>"

definition log_Printf :: "string \<Rightarrow> arg list \<Rightarrow> World \<Rightarrow> World" where
  "log_Printf fmt args wd = wd\<lparr>logs := logs wd @ [Printf fmt args]\<rparr>"

text \<open>\<open>if s.debug { log.Printf(...) }\<close>\<close>
definition dlog :: "Server \<Rightarrow> string \<Rightarrow> arg list \<Rightarrow> World \<Rightarrow> World" where
  "dlog s fmt args wd = (if debug s then log_Printf fmt args wd else wd)"

text \<open>\<open>time.Now()\<close> after \<open>d\<close> nanoseconds have passed since the last reading.\<close>
definition tick :: "nat \<Rightarrow> World \<Rightarrow> World" where
  "tick d wd = wd\<lparr>clock := clock wd + d\<rparr>"

section \<open>Library functions the handler calls\<close>

text \<open>
  \<open>hex.EncodeToString\<close>: two characters of \<open>0123456789abcdef\<close> for each byte, the
  high half first.
\<close>
definition hextable :: string where
  "hextable = ''0123456789abcdef''"

definition hex_byte :: "byte \<Rightarrow> string" where
  "hex_byte b = [hextable ! unat (drop_bit 4 b), hextable ! unat (b AND 0x0f)]"

definition hex_EncodeToString :: "byte list \<Rightarrow> string" where
  "hex_EncodeToString bs = concat (map hex_byte bs)"

text \<open>
  \<open>hex.DecodeString\<close>, the inverse the client applies: \<open>None\<close> for a string of odd
  length or with a character that is no hexadecimal digit.
\<close>
definition fromHexChar :: "char \<Rightarrow> byte option" where
  "fromHexChar c =
     (let n = of_char c :: nat in
      if 48 \<le> n \<and> n \<le> 57 then Some (of_nat (n - 48))
      else if 97 \<le> n \<and> n \<le> 102 then Some (of_nat (n - 97 + 10))
      else if 65 \<le> n \<and> n \<le> 70 then Some (of_nat (n - 65 + 10))
      else None)"

fun hex_DecodeString :: "string \<Rightarrow> byte list option" where
  "hex_DecodeString [] = Some []"
| "hex_DecodeString [c] = None"
| "hex_DecodeString (c # d # cs) =
     (case (fromHexChar c, fromHexChar d, hex_DecodeString cs) of
        (Some a, Some b, Some bs) \<Rightarrow> Some ((push_bit 4 a OR b) # bs)
      | _ \<Rightarrow> None)"

text \<open>
  \<open>strings.Fields\<close> splits a string around the runs of white space, which is what
  \<open>unicode.IsSpace\<close> accepts: the six ASCII characters tab, line feed, vertical tab,
  form feed, carriage return and space, and U+0085, U+00A0, U+1680, U+2000 to U+200A,
  U+2028, U+2029, U+202F, U+205F and U+3000. A Go string is a sequence of bytes read as
  UTF-8; \<open>space_width\<close> is the number of bytes of the white space character a string
  begins with, and 0 when it begins with none. No white space character begins with a
  continuation byte, and whatever is not well-formed UTF-8 is read as U+FFFD, which is
  no white space, so that reading the bytes one at a time where no white space begins
  finds the same fields as reading the string one character at a time.
\<close>
definition starts :: "nat list \<Rightarrow> string \<Rightarrow> bool" where
  "starts bs s = (map of_char (take (length bs) s) = bs)"

definition space_width :: "string \<Rightarrow> nat" where
  "space_width s =
     (if starts [0x09] s \<or> starts [0x0A] s \<or> starts [0x0B] s \<or> starts [0x0C] s
         \<or> starts [0x0D] s \<or> starts [0x20] s then 1
      else if starts [0xC2, 0x85] s \<or> starts [0xC2, 0xA0] s then 2
      else if starts [0xE1, 0x9A, 0x80] s
         \<or> (\<exists>b \<in> set [0x80, 0x81, 0x82, 0x83, 0x84, 0x85, 0x86, 0x87, 0x88, 0x89, 0x8A,
                       0xA8, 0xA9, 0xAF]. starts [0xE2, 0x80, b] s)
         \<or> starts [0xE2, 0x81, 0x9F] s \<or> starts [0xE3, 0x80, 0x80] s then 3
      else 0)"

fun fields_from :: "string \<Rightarrow> string \<Rightarrow> string list" where
  "fields_from cur [] = (if cur = [] then [] else [cur])"
| "fields_from cur (c # cs) =
     (if 0 < space_width (c # cs)
      then (if cur = [] then fields_from [] (drop (space_width (c # cs) - 1) cs)
            else cur # fields_from [] (drop (space_width (c # cs) - 1) cs))
      else fields_from (cur @ [c]) cs)"

definition strings_Fields :: "string \<Rightarrow> string list" where
  "strings_Fields s = fields_from [] s"

section \<open>NewServer and cleanupSessions\<close>

definition NewServer :: "string \<Rightarrow> string \<Rightarrow> string \<Rightarrow> bool \<Rightarrow> bool \<Rightarrow> Server" where
  "NewServer dHost dPort cmd dbg direct =
     \<lparr>sessions = [], destHost = dHost, destPort = dPort, debug = dbg,
      appCommand = cmd, isAppMode = (cmd \<noteq> []), allowDirect = direct\<rparr>"

text \<open>\<open>now.Sub(session.lastActive) > 5*time.Minute\<close>, on signed durations.\<close>
definition expired :: "instant \<Rightarrow> Session \<Rightarrow> bool" where
  "expired now session = (int now - int (lastActive session) > int (5 * Minute))"

text \<open>The callback of \<open>s.sessions.Range\<close> on one entry.\<close>
definition reap_entry :: "instant \<Rightarrow> string \<times> Session \<Rightarrow> Server \<times> World \<Rightarrow> Server \<times> World" where
  "reap_entry now kv sw =
     (case (kv, sw) of ((key, session), (s, wd)) \<Rightarrow>
        if expired now session
        then (s\<lparr>sessions := AList.delete key (sessions s)\<rparr>,
              emit [Lock (conn session), ConnClose (conn session), Delete key,
                    Unlock (conn session)] wd)
        else (s, emit [Lock (conn session), Unlock (conn session)] wd))"

text \<open>
  One turn of the loop of \<open>cleanupSessions\<close>: \<open>time.Sleep(time.Minute)\<close> returns after
  a minute and \<open>late\<close> more nanoseconds, \<open>now\<close> is read once, and \<open>Range\<close> visits
  every entry the table holds.
\<close>
definition cleanupSessions_pass :: "nat \<Rightarrow> Server \<Rightarrow> World \<Rightarrow> Server \<times> World" where
  "cleanupSessions_pass late s wd =
     (let wd1 = tick (Minute + late) wd;
          now = clock wd1
      in fold (reap_entry now) (sessions s) (s, wd1))"

section \<open>handleApplication\<close>

text \<open>
  The goroutine that scans one pipe of the subprocess (lines 133 to 143 for the standard
  output, 146 to 156 for the standard error), on its own: what it writes to the log when
  \<open>scanner.Scan\<close> gives it the lines \<open>lines\<close> and \<open>scanner.Err()\<close> is then \<open>err\<close>. The
  handler starts the two goroutines and does not wait for them: they run beside
  \<open>cmd.Wait\<close>, which closes the pipes when the subprocess has exited, so that \<open>lines\<close> is
  as much of the output as the goroutine got to read, and what it logs comes at any time
  after its start, also after the handler has returned.
\<close>
definition scanner :: "Server \<Rightarrow> string \<Rightarrow> string \<Rightarrow> string list \<Rightarrow> string option \<Rightarrow> logrec list" where
  "scanner s fmt errfmt lines err =
     concat (map (\<lambda>l. if debug s then [Printf fmt [S l]] else []) lines)
     @ (case err of
          Some e \<Rightarrow> if debug s then [Printf errfmt [S e]] else []
        | None \<Rightarrow> [])"

text \<open>
  The handler of application mode. The two \<open>go\<close> statements are the events
  \<open>Go ''stdout''\<close> and \<open>Go ''stderr''\<close>: the handler goes on to \<open>cmd.Wait\<close> at once, and
  its own log holds nothing of what the goroutines write.
\<close>
definition handleApplication :: "Server \<Rightarrow> World \<Rightarrow> Env \<Rightarrow> Request \<Rightarrow> outcome \<times> Server \<times> World" where
  "handleApplication s wd env r =
     (let w = new_Response;
          wd1 = dlog s ''Handling application request from %s''
                  [S (Header_Get (Header r) ''Cf-Connecting-Ip'')] wd;
          parts = strings_Fields (appCommand s)
      in if length parts = 0
         then (Replied (http_Error w ''Invalid application command'' 500), s, wd1)
         else
           let wd2 = dlog s ''Launching application: %s'' [S (appCommand s)] wd1
           in case stdout_pipe env of
                Some e \<Rightarrow>
                  (Replied (http_Error w e 500), s,
                   log_Printf ''Failed to create stdout pipe: %v'' [S e] wd2)
              | None \<Rightarrow>
                 (case stderr_pipe env of
                    Some e \<Rightarrow>
                      (Replied (http_Error w e 500), s,
                       log_Printf ''Failed to create stderr pipe: %v'' [S e] wd2)
                  | None \<Rightarrow>
                     (case start_result env of
                        Some e \<Rightarrow>
                          (Replied (http_Error w e 500), s,
                           log_Printf ''Failed to start application: %v'' [S e]
                             (emit [CmdStart parts (Some e)] wd2))
                      | None \<Rightarrow>
                         (let wd3 = emit [CmdStart parts None] wd2;
                              wd4 = emit [Go ''stdout''] wd3;
                              wd5 = emit [Go ''stderr''] wd4;
                              wd6 = emit [CmdWait (wait_result env)] wd5
                          in case wait_result env of
                               Some e \<Rightarrow>
                                 (Replied (http_Error w e 500), s,
                                  dlog s ''Application exited with error: %v'' [S e] wd6)
                             | None \<Rightarrow> (Replied w, s, wd6)))))"

section \<open>handleRequest\<close>

text \<open>Lines 190 to 200: the headers every response past the admission filter carries.\<close>
definition decorate :: "Response \<Rightarrow> Response" where
  "decorate w =
     Header_Set ''Content-Type'' ''application/octet-stream''
      (Header_Set ''Expires'' ''0''
       (Header_Set ''Pragma'' ''no-cache''
        (Header_Set ''Cache-Control'' ''no-store, no-cache, must-revalidate''
         (Header_Set ''X-XSS-Protection'' ''1; mode=block''
          (Header_Set ''X-Frame-Options'' ''SAMEORIGIN''
           (Header_Set ''X-Content-Type-Options'' ''nosniff''
            (Header_Set ''X-Powered-By'' ''PHP/7.4.33''
             (Header_Set ''Server'' ''Apache/2.4.41 (Ubuntu)'' w))))))))"

text \<open>Lines 203 to 211.\<close>
definition session_id :: "Request \<Rightarrow> string" where
  "session_id r =
     (let sessionID = Header_Get (Header r) ''X-Ephemeral''
      in if sessionID = []
         then (let sessionID = Header_Get (Header r) ''Cf-Ray''
               in if sessionID = [] then Header_Get (Header r) ''Cf-Connecting-Ip''
                  else sessionID)
         else sessionID)"

text \<open>
  \<open>sessionID[:8]\<close>, an argument of four debug log calls: a slice expression, which
  panics when the string has fewer than 8 bytes.
\<close>
definition prefix8 :: "string \<Rightarrow> string option" where
  "prefix8 sessionID = (if length sessionID < 8 then None else Some (take 8 sessionID))"

text \<open>The three calls lines 222 to 235 are made of.\<close>
definition sessions_Load :: "string \<Rightarrow> Server \<Rightarrow> World \<Rightarrow> Session option \<times> World" where
  "sessions_Load key s wd = (map_of (sessions s) key, emit [Load key] wd)"

definition net_Dial :: "Server \<Rightarrow> Env \<Rightarrow> World \<Rightarrow> (string + conn_id) \<times> World" where
  "net_Dial s env wd =
     (let addr = destHost s @ '':'' @ destPort s
      in case dial_result env of
           Some e \<Rightarrow> (Inl e, emit [Dial addr (Inl e)] wd)
         | None \<Rightarrow> (Inr (dialed wd),
                     emit [Dial addr (Inr (dialed wd))] (wd\<lparr>dialed := dialed wd + 1\<rparr>)))"

definition sessions_Store :: "string \<Rightarrow> Session \<Rightarrow> Server \<Rightarrow> World \<Rightarrow> Server \<times> World" where
  "sessions_Store key session s wd =
     (s\<lparr>sessions := AList.update key session (sessions s)\<rparr>, emit [Store key (conn session)] wd)"

text \<open>Lines 221 to 238: the session of the request, loaded or created.\<close>
definition acquire :: "Server \<Rightarrow> World \<Rightarrow> Env \<Rightarrow> string \<Rightarrow> (string + Session) \<times> Server \<times> World" where
  "acquire s wd env sessionID =
     (case sessions_Load sessionID s wd of
        (Some session, wd1) \<Rightarrow> (Inr session, s, wd1)
      | (None, wd1) \<Rightarrow>
         (case net_Dial s env wd1 of
            (Inl e, wd2) \<Rightarrow> (Inl e, s, wd2)
          | (Inr c, wd2) \<Rightarrow>
             (let wd3 = tick (now_create env) wd2;
                  session = \<lparr>conn = c, lastActive = clock wd3, buffer = []\<rparr>
              in case sessions_Store sessionID session s wd3 of
                   (s1, wd4) \<Rightarrow> (Inr session, s1, wd4))))"

text \<open>Lines 244 to 270.\<close>
definition handlePost :: "Server \<Rightarrow> World \<Rightarrow> Env \<Rightarrow> Request \<Rightarrow> Response \<Rightarrow> string \<Rightarrow> Session \<Rightarrow> outcome \<times> World" where
  "handlePost s wd env r w sessionID session =
     (let wd1 = emit [ReadAll] wd
      in case Body r of
           Inl e \<Rightarrow>
             (Replied (http_Error w e 500), dlog s ''Error reading request body: %v'' [S e] wd1)
         | Inr data \<Rightarrow>
             if length data > 0
             then (if debug s \<and> prefix8 sessionID = None then (Panicked, wd1)
                   else
                    (let wd2 = dlog s ''POST: Writing %d bytes to connection for session %s''
                                 [N (length data), S (take 8 sessionID)] wd1;
                         wd3 = emit [ConnWrite (conn session) data (write_result env)] wd2
                     in case write_result env of
                          Some e \<Rightarrow>
                            (Replied (http_Error w e 500),
                             dlog s ''Error writing to connection: %v'' [S e] wd3)
                        | None \<Rightarrow> (Replied w, wd3)))
             else (Replied w, wd1))"

text \<open>\<open>conn.Read(buffer)\<close>: at most \<open>len(buffer)\<close> bytes come back.\<close>
definition conn_Read :: "nat \<Rightarrow> read_result \<Rightarrow> read_result" where
  "conn_Read buflen res = (case res of ReadOk bs \<Rightarrow> ReadOk (take buflen bs) | ReadErr e \<Rightarrow> ReadErr e)"

text \<open>
  Lines 276 to 301, the loop of the GET branch, from its k-th turn on. It has no bound:
  it goes on for as long as every read fills the buffer, and \<open>None\<close> is the loop that
  never ends.
\<close>
datatype drained = Drained "byte list" | ReadFailed go_error | SliceOutOfRange

partial_function (option) drain :: "Server \<Rightarrow> string \<Rightarrow> conn_id \<Rightarrow> Env \<Rightarrow> nat \<Rightarrow> byte list \<Rightarrow> World \<Rightarrow> (drained \<times> World) option" where
  "drain s sessionID c env k readData wd =
     (let wd1 = tick (now_read env k) wd;
          wd2 = emit [SetReadDeadline c (clock wd1 + 50 * Millisecond)] wd1;
          res = conn_Read 8192 (read_results env k);
          wd3 = emit [ConnRead c 8192 res] wd2
      in case res of
           ReadErr err \<Rightarrow>
             if err \<noteq> EOF \<and> \<not> Timeout err
             then Some (ReadFailed err,
                        dlog s ''Error reading from connection: %v'' [S (Error_text err)] wd3)
             else Some (Drained readData, wd3)
         | ReadOk chunk \<Rightarrow>
             if length chunk > 0 \<and> debug s \<and> prefix8 sessionID = None
             then Some (SliceOutOfRange, wd3)
             else
              (let wd4 = (if length chunk > 0
                          then dlog s ''GET: Read %d bytes from connection for session %s''
                                 [N (length chunk), S (take 8 sessionID)] wd3
                          else wd3);
                   readData1 = (if length chunk > 0 then readData @ chunk else readData)
               in if length chunk < 8192 then Some (Drained readData1, wd4)
                  else drain s sessionID c env (k + 1) readData1 wd4))"

declare drain.simps [code]

text \<open>
  How the GET branch ends after the loop: the 500 of line 284 for a read that failed,
  and lines 303 to 320 otherwise.
\<close>
definition respond :: "Server \<Rightarrow> Request \<Rightarrow> Response \<Rightarrow> string \<Rightarrow> drained \<Rightarrow> World \<Rightarrow> outcome \<times> World" where
  "respond s r w sessionID d wd =
     (case d of
        ReadFailed err \<Rightarrow> (Replied (http_Error w (Error_text err) 500), wd)
      | SliceOutOfRange \<Rightarrow> (Panicked, wd)
      | Drained readData \<Rightarrow>
          if length readData > 0
          then (let encoded = hex_EncodeToString readData
                in if debug s \<and> prefix8 sessionID = None then (Panicked, wd)
                   else (Replied (w_Write encoded w),
                         dlog s ''Response: Sending %d bytes (encoded: %d bytes) for session %s path %s''
                           [N (length readData), N (length encoded), S (take 8 sessionID),
                            S (Path r)] wd))
          else if debug s
          then (if prefix8 sessionID = None then (Panicked, wd)
                else (Replied w,
                      log_Printf ''Response: No data to send for session %s path %s''
                        [S (take 8 sessionID), S (Path r)] wd))
          else (Replied w, wd))"

text \<open>Lines 272 to 320.\<close>
definition handleGet :: "Server \<Rightarrow> World \<Rightarrow> Env \<Rightarrow> Request \<Rightarrow> Response \<Rightarrow> string \<Rightarrow> Session \<Rightarrow> (outcome \<times> World) option" where
  "handleGet s wd env r w sessionID session =
     (case drain s sessionID (conn session) env 0 [] wd of
        None \<Rightarrow> None
      | Some (d, wd1) \<Rightarrow> Some (respond s r w sessionID d wd1))"

text \<open>
  The handler. \<open>session\<close> is a pointer to the record the table holds under the
  session-id, so the assignment to \<open>session.lastActive\<close> is an update of that entry.
  The deferred \<open>Unlock\<close> runs however the rest ends.
\<close>
definition handleRequest :: "Server \<Rightarrow> World \<Rightarrow> Env \<Rightarrow> Request \<Rightarrow> (outcome \<times> Server \<times> World) option" where
  "handleRequest s wd env r =
     (if isAppMode s then Some (handleApplication s wd env r)
      else
       (let cfConnecting = Header_Get (Header r) ''Cf-Connecting-Ip'';
            wd1 = dlog s ''Headers: %+v'' [H (Header r)]
                    (dlog s ''Request: %s %s from %s''
                       [S (Method r), S (Path r), S cfConnecting] wd)
        in if cfConnecting = [] \<and> \<not> allowDirect s
           then Some (Replied (http_Error new_Response ''Direct access not allowed'' 403), s, wd1)
           else
            (let w = decorate new_Response;
                 sessionID = session_id r
             in if sessionID = []
                then Some (Replied (http_Error w ''Missing session ID'' 400), s,
                           dlog s ''Error: Missing session ID from %s'' [S cfConnecting] wd1)
                else
                 (case acquire s wd1 env sessionID of
                    (Inl e, s1, wd2) \<Rightarrow> Some (Replied (http_Error w e 500), s1, wd2)
                  | (Inr session, s1, wd2) \<Rightarrow>
                     (let wd3 = tick (now_lock env) (emit [Lock (conn session)] wd2);
                          session1 = session\<lparr>lastActive := clock wd3\<rparr>;
                          s2 = s1\<lparr>sessions := AList.update sessionID session1 (sessions s1)\<rparr>
                      in if Method r = ''POST''
                         then (case handlePost s2 wd3 env r w sessionID session1 of
                                 (out, wd4) \<Rightarrow>
                                   Some (out, s2, emit [Unlock (conn session)] wd4))
                         else (case handleGet s2 wd3 env r w sessionID session1 of
                                 None \<Rightarrow> None
                               | Some (out, wd4) \<Rightarrow>
                                   Some (out, s2, emit [Unlock (conn session)] wd4)))))))"

section \<open>Runs of the server\<close>

text \<open>
  A sequential run: requests served one after the other, and passes of the reaper
  between them. \<open>None\<close> is a run in which a request never returns.
\<close>
datatype step = Serve Env Request | Reap nat


text \<open>
  Two requests in flight at once. Between \<open>Load\<close>, \<open>net.Dial\<close> and \<open>Store\<close> of lines
  222 to 235 the handler holds no lock, so the calls of two goroutines interleave;
  each call is atomic. \<open>phase\<close> is where a goroutine stands, \<open>acquire_step\<close> its next
  call, and \<open>race\<close> runs two goroutines with the same session-id in the order the
  schedule gives (\<open>True\<close>: the first one moves).
\<close>
datatype phase = AtLoad | AtDial | AtStore Session | Holding Session | DialFailed string

definition acquire_step :: "string \<Rightarrow> Env \<Rightarrow> phase \<Rightarrow> Server \<Rightarrow> World \<Rightarrow> phase \<times> Server \<times> World" where
  "acquire_step sessionID env p s wd =
     (case p of
        AtLoad \<Rightarrow>
          (case sessions_Load sessionID s wd of
             (Some session, wd1) \<Rightarrow> (Holding session, s, wd1)
           | (None, wd1) \<Rightarrow> (AtDial, s, wd1))
      | AtDial \<Rightarrow>
          (case net_Dial s env wd of
             (Inl e, wd1) \<Rightarrow> (DialFailed e, s, wd1)
           | (Inr c, wd1) \<Rightarrow>
               (let wd2 = tick (now_create env) wd1
                in (AtStore \<lparr>conn = c, lastActive = clock wd2, buffer = []\<rparr>, s, wd2)))
      | AtStore session \<Rightarrow>
          (case sessions_Store sessionID session s wd of
             (s1, wd1) \<Rightarrow> (Holding session, s1, wd1))
      | Holding session \<Rightarrow> (Holding session, s, wd)
      | DialFailed e \<Rightarrow> (DialFailed e, s, wd))"

fun race :: "bool list \<Rightarrow> string \<Rightarrow> Env \<Rightarrow> Env \<Rightarrow> phase \<times> phase \<Rightarrow> Server \<Rightarrow> World \<Rightarrow> (phase \<times> phase) \<times> Server \<times> World" where
  "race [] sessionID envA envB ps s wd = (ps, s, wd)"
| "race (first # sched) sessionID envA envB ps s wd =
     (if first
      then (case acquire_step sessionID envA (fst ps) s wd of
              (p, s1, wd1) \<Rightarrow> race sched sessionID envA envB (p, snd ps) s1 wd1)
      else (case acquire_step sessionID envB (snd ps) s wd of
              (p, s1, wd1) \<Rightarrow> race sched sessionID envA envB (fst ps, p) s1 wd1))"

section \<open>Notions the properties are stated with\<close>

text \<open>A read that fills the 8192-byte buffer: the only kind after which the loop goes on.\<close>
definition fills :: "read_result \<Rightarrow> bool" where
  "fills res = (case res of ReadOk bs \<Rightarrow> 8192 \<le> length bs | ReadErr e \<Rightarrow> False)"

text \<open>
  What \<open>n\<close> turns of the loop do to the connection, from the k-th read on, when the
  clock stood at \<open>clk\<close> before: the deadline 50 milliseconds after the time of the
  turn, then the read.
\<close>
fun drain_events :: "conn_id \<Rightarrow> Env \<Rightarrow> instant \<Rightarrow> nat \<Rightarrow> nat \<Rightarrow> event list" where
  "drain_events c env clk k 0 = []"
| "drain_events c env clk k (Suc n) =
     [SetReadDeadline c (clk + now_read env k + 50 * Millisecond),
      ConnRead c 8192 (conn_Read 8192 (read_results env k))]
     @ drain_events c env (clk + now_read env k) (Suc k) n"

text \<open>The bytes the k-th read hands to the handler, and those of \<open>n\<close> reads from the k-th on.\<close>
definition chunk_of :: "read_result \<Rightarrow> byte list" where
  "chunk_of res = (case conn_Read 8192 res of ReadOk ch \<Rightarrow> ch | ReadErr e \<Rightarrow> [])"

fun received :: "Env \<Rightarrow> nat \<Rightarrow> nat \<Rightarrow> byte list" where
  "received env k 0 = []"
| "received env k (Suc n) = chunk_of (read_results env k) @ received env (Suc k) n"

text \<open>How the loop ends when it ends at its read number \<open>k + n\<close>.\<close>
definition drain_ends :: "Server \<Rightarrow> string \<Rightarrow> Env \<Rightarrow> nat \<Rightarrow> byte list \<Rightarrow> nat \<Rightarrow> drained" where
  "drain_ends s sessionID env k readData n =
     (case conn_Read 8192 (read_results env (k + n)) of
        ReadErr e \<Rightarrow> if e \<noteq> EOF \<and> \<not> Timeout e then ReadFailed e
                     else Drained (readData @ received env k n)
      | ReadOk ch \<Rightarrow> if ch \<noteq> [] \<and> debug s \<and> length sessionID < 8 then SliceOutOfRange
                     else Drained (readData @ received env k (Suc n)))"

text \<open>
  What holds of a loop that has ended, for some number \<open>n\<close> of reads before the last:
  the events are those of \<open>n + 1\<close> turns, the reads before the last filled the buffer,
  and the last one did not, unless the debug log call panicked.
\<close>
definition drain_post :: "Server \<Rightarrow> string \<Rightarrow> conn_id \<Rightarrow> Env \<Rightarrow> nat \<Rightarrow> byte list \<Rightarrow> World \<Rightarrow> drained \<times> World \<Rightarrow> bool" where
  "drain_post s sessionID c env k readData wd y =
     (\<exists>n. trace (snd y) = trace wd @ drain_events c env (clock wd) k (Suc n)
        \<and> clock wd \<le> clock (snd y)
        \<and> dialed (snd y) = dialed wd
        \<and> (\<forall>j<n. fills (read_results env (k + j)))
        \<and> (0 < n \<longrightarrow> \<not> (debug s \<and> length sessionID < 8))
        \<and> (fills (read_results env (k + n)) \<longrightarrow> debug s \<and> length sessionID < 8)
        \<and> fst y = drain_ends s sessionID env k readData n)"

text \<open>The events a call has added to the trace.\<close>
definition new_events :: "World \<Rightarrow> World \<Rightarrow> event list" where
  "new_events wd wd1 = drop (length (trace wd)) (trace wd1)"

section \<open>Concrete servers, requests and environments, and further notions\<close>

definition world0 :: World where
  "world0 = \<lparr>clock = 0, dialed = 0, trace = [], logs = []\<rparr>"

text \<open>An environment in which the dial and the write succeed and every read times out.\<close>
definition env0 :: Env where
  "env0 = \<lparr>now_create = 5, now_lock = 7, now_read = (\<lambda>k. 3),
     dial_result = None, write_result = None,
     read_results = (\<lambda>k. ReadErr (NetError True ''i/o timeout'')),
     stdout_pipe = None, stderr_pipe = None, start_result = None, wait_result = None\<rparr>"

definition request :: "string \<Rightarrow> (string \<times> string list) list \<Rightarrow> byte list \<Rightarrow> Request" where
  "request m h b = \<lparr>Method = m, Path = ''/x'', Header = h, Body = Inr b\<rparr>"

text \<open>The server of \<open>-d 127.0.0.1:22\<close>, with the flags \<open>-debug\<close> and \<open>-allow-direct\<close>.\<close>
definition proxy_server :: "bool \<Rightarrow> bool \<Rightarrow> Server" where
  "proxy_server dbg direct = NewServer ''127.0.0.1'' ''22'' [] dbg direct"

text \<open>The world in which the handler starts its work in proxy mode: two debug log calls later.\<close>
definition logged_in :: "Server \<Rightarrow> Request \<Rightarrow> World \<Rightarrow> World" where
  "logged_in s r wd =
     dlog s ''Headers: %+v'' [H (Header r)]
       (dlog s ''Request: %s %s from %s''
          [S (Method r), S (Path r), S (Header_Get (Header r) ''Cf-Connecting-Ip'')] wd)"

text \<open>An environment in which every read fails with a connection reset.\<close>
definition env_reset :: Env where
  "env_reset = env0\<lparr>read_results := (\<lambda>k. ReadErr (NetError False ''read: connection reset by peer''))\<rparr>"

text \<open>
  An environment in which the first read fills the buffer and every later read fails
  with a connection reset.
\<close>
definition env_reset_second :: Env where
  "env_reset_second =
     env0\<lparr>read_results := (\<lambda>k. if k = 0 then ReadOk (replicate 8192 0)
                               else ReadErr (NetError False ''read: connection reset by peer''))\<rparr>"




text \<open>
  An environment in which the backend has two full buffers ready and then nothing.
\<close>
definition env_fast :: Env where
  "env_fast = env0\<lparr>read_results :=
     (\<lambda>k. if k < 2 then ReadOk (replicate 8192 0) else ReadErr (NetError True ''i/o timeout''))\<rparr>"

text \<open>
  The first error application mode meets: creating the two pipes, \<open>cmd.Start\<close>, then
  \<open>cmd.Wait\<close> (a non-zero exit status is an error of \<open>Wait\<close>).
\<close>
definition app_error :: "Env \<Rightarrow> string option" where
  "app_error env =
     (case stdout_pipe env of Some e \<Rightarrow> Some e
      | None \<Rightarrow> (case stderr_pipe env of Some e \<Rightarrow> Some e
         | None \<Rightarrow> (case start_result env of Some e \<Rightarrow> Some e
            | None \<Rightarrow> wait_result env)))"

text \<open>
  The calls on the subprocess in application mode, and the start of the two goroutines
  that scan its output.
\<close>
definition app_events :: "Server \<Rightarrow> Env \<Rightarrow> event list" where
  "app_events s env =
     (if strings_Fields (appCommand s) = [] then []
      else if stdout_pipe env = None \<and> stderr_pipe env = None
      then CmdStart (strings_Fields (appCommand s)) (start_result env)
           # (if start_result env = None
              then [Go ''stdout'', Go ''stderr'', CmdWait (wait_result env)] else [])
      else [])"

text \<open>The server of \<open>-a cmd\<close>.\<close>
definition app_server :: "string \<Rightarrow> bool \<Rightarrow> Server" where
  "app_server cmd dbg = NewServer [] [] cmd dbg False"

text \<open>What the reaper does on one entry when the pass reads the clock at \<open>now\<close>.\<close>
definition reap_events :: "instant \<Rightarrow> string \<times> Session \<Rightarrow> event list" where
  "reap_events now kv =
     [Lock (conn (snd kv))]
     @ (if expired now (snd kv) then [ConnClose (conn (snd kv)), Delete (fst kv)] else [])
     @ [Unlock (conn (snd kv))]"

text \<open>
  A server with three sessions, last used at 0, one minute, and one nanosecond after one
  minute, in a world whose clock stands at five minutes.
\<close>
definition idle_server :: Server where
  "idle_server =
     (proxy_server False False)
       \<lparr>sessions := [(''old'', \<lparr>conn = 0, lastActive = 0, buffer = []\<rparr>),
                     (''edge'', \<lparr>conn = 1, lastActive = Minute, buffer = []\<rparr>),
                     (''fresh'', \<lparr>conn = 2, lastActive = Minute + 1, buffer = []\<rparr>)]\<rparr>"

definition world5 :: World where
  "world5 = \<lparr>clock = 5 * Minute, dialed = 3, trace = [], logs = []\<rparr>"

text \<open>
  The shape of the table in every state the server reaches: one entry per session-id,
  one connection per entry, each connection one that was dialled, and no record
  stamped later than the clock.
\<close>
definition table_ok :: "Server \<Rightarrow> World \<Rightarrow> bool" where
  "table_ok s wd =
     (distinct (map fst (sessions s))
      \<and> distinct (map (\<lambda>kv. conn (snd kv)) (sessions s))
      \<and> (\<forall>kv \<in> set (sessions s). conn (snd kv) < dialed wd \<and> lastActive (snd kv) \<le> clock wd))"





section \<open>Properties\<close>

lemmas handler_defs =
  handleRequest_def handleApplication_def handlePost_def handleGet_def respond_def acquire_def
  sessions_Load_def net_Dial_def sessions_Store_def session_id_def decorate_def
  Header_Get_def Header_Set_def http_Error_def w_Write_def new_Response_def
  emit_def tick_def dlog_def log_Printf_def prefix8_def conn_Read_def
  strings_Fields_def space_width_def starts_def Let_def

lemmas input_defs =
  world0_def env0_def request_def proxy_server_def NewServer_def

subsection \<open>The state after a call\<close>

lemma World_emit [simp]:
  "trace (emit es wd) = trace wd @ es" "clock (emit es wd) = clock wd"
  "dialed (emit es wd) = dialed wd" "logs (emit es wd) = logs wd"
  by (simp_all add: emit_def)

lemma World_tick [simp]:
  "trace (tick d wd) = trace wd" "clock (tick d wd) = clock wd + d"
  "dialed (tick d wd) = dialed wd" "logs (tick d wd) = logs wd"
  by (simp_all add: tick_def)

lemma World_log_Printf [simp]:
  "trace (log_Printf f as wd) = trace wd" "clock (log_Printf f as wd) = clock wd"
  "dialed (log_Printf f as wd) = dialed wd"
  by (simp_all add: log_Printf_def)

lemma World_dlog [simp]:
  "trace (dlog s f as wd) = trace wd" "clock (dlog s f as wd) = clock wd"
  "dialed (dlog s f as wd) = dialed wd"
  by (simp_all add: dlog_def)

lemma fills_conn_Read:
  "conn_Read 8192 res = ReadOk ch \<Longrightarrow> fills res = (\<not> length ch < 8192)"
  by (auto simp: conn_Read_def fills_def split: read_result.splits)

lemma fills_conn_Read_err:
  "conn_Read 8192 res = ReadErr e \<Longrightarrow> \<not> fills res"
  by (auto simp: conn_Read_def fills_def split: read_result.splits)

lemma received_snoc: "received env k (Suc n) = received env k n @ chunk_of (read_results env (k + n))"
  by (induction n arbitrary: k) simp_all

lemmas drain_induct = drain.raw_induct [rotated 1, consumes 1, case_names step]

lemma drain_SomeD:
  assumes "drain s sessionID c env k readData wd = Some y"
  shows "drain_post s sessionID c env k readData wd y"
  using assms
proof (induct rule: drain_induct)
  case (step f s sessionID c env k readData wd y)
  show ?case
  proof (cases "conn_Read 8192 (read_results env k)")
    case (ReadErr e)
    with step(2) show ?thesis
      unfolding drain_post_def
      by (intro exI[of _ 0]) (auto simp: Let_def drain_ends_def fills_conn_Read_err split: if_splits)
  next
    case (ReadOk ch)
    show ?thesis
    proof (cases "0 < length ch \<and> debug s \<and> prefix8 sessionID = None")
      case True
      with step(2) ReadOk show ?thesis
        unfolding drain_post_def
        by (intro exI[of _ 0]) (auto simp: Let_def drain_ends_def prefix8_def split: if_splits)
    next
      case noslip: False
      show ?thesis
      proof (cases "length ch < 8192")
        case True
        with step(2) ReadOk noslip show ?thesis
          unfolding drain_post_def
          by (intro exI[of _ 0])
             (auto simp: Let_def drain_ends_def prefix8_def chunk_of_def fills_conn_Read split: if_splits)
      next
        case False
        let ?wd4 = "dlog s ''GET: Read %d bytes from connection for session %s''
                      [N (length ch), S (take 8 sessionID)]
                      (emit [ConnRead c 8192 (ReadOk ch)]
                        (emit [SetReadDeadline c (clock (tick (now_read env k) wd) + 50 * Millisecond)]
                          (tick (now_read env k) wd)))"
        from False have pos: "0 < length ch" by (cases ch) simp_all
        from noslip pos have ns1: "\<not> (debug s \<and> prefix8 sessionID = None)" by blast
        from step(2) ReadOk ns1 False pos
        have rec: "f s sessionID c env (k + 1) (readData @ ch) ?wd4 = Some y"
          by (simp add: Let_def)
        from step(1)[OF rec] obtain n where n:
          "trace (snd y) = trace ?wd4 @ drain_events c env (clock ?wd4) (k + 1) (Suc n)"
          "clock ?wd4 \<le> clock (snd y)" "dialed (snd y) = dialed ?wd4"
          "\<forall>j<n. fills (read_results env (k + 1 + j))"
          "0 < n \<longrightarrow> \<not> (debug s \<and> length sessionID < 8)"
          "fills (read_results env (k + 1 + n)) \<longrightarrow> debug s \<and> length sessionID < 8"
          "fst y = drain_ends s sessionID env (k + 1) (readData @ ch) n"
          unfolding drain_post_def by blast
        have f0: "fills (read_results env k)"
          using ReadOk False by (simp add: fills_conn_Read)
        have all: "\<forall>j<Suc n. fills (read_results env (k + j))"
        proof (intro allI impI)
          fix j assume "j < Suc n"
          then show "fills (read_results env (k + j))"
            using f0 n(4) by (cases j) auto
        qed
        have ns: "\<not> (debug s \<and> length sessionID < 8)"
          using noslip pos by (auto simp: prefix8_def)
        have ends: "drain_ends s sessionID env (k + 1) (readData @ ch) n
                    = drain_ends s sessionID env k readData (Suc n)"
          using ReadOk by (simp add: drain_ends_def chunk_of_def split: read_result.splits)
        show ?thesis
          unfolding drain_post_def
          apply (intro exI[of _ "Suc n"])
          using n all ns ends ReadOk by (simp add: add.commute add.left_commute)
      qed
    qed
  qed
qed


lemma drain_stops:
  assumes "\<forall>j<n. fills (read_results env (k + j))"
    and "\<not> fills (read_results env (k + n))"
    and "\<not> (debug s \<and> length sessionID < 8)"
  shows "\<exists>y. drain s sessionID c env k readData wd = Some y"
  using assms(1,2)
proof (induction n arbitrary: k readData wd)
  case 0
  then have "\<not> fills (read_results env k)" by simp
  then show ?case
    by (subst drain.simps)
       (auto simp: Let_def fills_def conn_Read_def split: read_result.splits)
next
  case (Suc n)
  from Suc.prems(1) have f0: "fills (read_results env k)" by force
  then obtain bs where bs: "read_results env k = ReadOk bs" "8192 \<le> length bs"
    by (auto simp: fills_def split: read_result.splits)
  have later: "\<forall>j<n. fills (read_results env (Suc k + j))"
    using Suc.prems(1) by (metis Suc_less_eq add_Suc_shift)
  have last: "\<not> fills (read_results env (Suc k + n))"
    using Suc.prems(2) by simp
  from Suc.IH[OF later last] assms(3) bs show ?case
    by (subst drain.simps) (simp add: Let_def conn_Read_def prefix8_def)
qed

lemma acquire_trace:
  assumes "acquire s wd env sid = (res, s1, wd1)"
  shows "\<exists>es. trace wd1 = trace wd @ Load sid # es"
  using assms
  by (auto simp: acquire_def sessions_Load_def net_Dial_def sessions_Store_def Let_def
           split: option.splits)

lemma handlePost_trace:
  assumes "handlePost s wd env r w sid session = (out, wd1)"
  shows "\<exists>es. trace wd1 = trace wd @ es"
  using assms
  by (auto simp: handlePost_def Let_def split: sum.splits if_splits option.splits)

lemma handlePost_status:
  assumes "handlePost s wd env r w sid session = (Replied rep, wd1)"
  shows "rep = w \<or> status rep = 500"
  using assms
  by (auto simp: handlePost_def Let_def http_Error_def split: sum.splits if_splits option.splits)

lemma World_respond [simp]:
  "trace (snd (respond s r w sid d wd)) = trace wd"
  "clock (snd (respond s r w sid d wd)) = clock wd"
  "dialed (snd (respond s r w sid d wd)) = dialed wd"
  by (simp_all add: respond_def Let_def split: drained.splits)

lemma respond_status:
  "fst (respond s r w sid d wd) = Replied rep \<Longrightarrow> status rep = status w \<or> status rep = 500"
  by (auto simp: respond_def Let_def http_Error_def w_Write_def split: drained.splits if_splits)

lemma handleGet_drain:
  assumes "handleGet s wd env r w sid session = Some (out, wd1)"
  shows "\<exists>y. drain s sid (conn session) env 0 [] wd = Some y
           \<and> (out, wd1) = respond s r w sid (fst y) (snd y)"
  using assms by (auto simp: handleGet_def split: option.splits)

lemma handleGet_trace:
  assumes "handleGet s wd env r w sid session = Some (out, wd1)"
  shows "\<exists>es. trace wd1 = trace wd @ es"
proof -
  from handleGet_drain[OF assms] obtain y where y: "drain s sid (conn session) env 0 [] wd = Some y"
    and wd1: "(out, wd1) = respond s r w sid (fst y) (snd y)" by blast
  from drain_SomeD[OF y] obtain es where "trace (snd y) = trace wd @ es"
    unfolding drain_post_def by blast
  moreover from wd1 have "trace wd1 = trace (snd y)"
    by (metis World_respond(1) snd_conv)
  ultimately show ?thesis by auto
qed

lemma handleGet_status:
  assumes "handleGet s wd env r w sid session = Some (Replied rep, wd1)"
  shows "status rep = status w \<or> status rep = 500"
proof -
  from handleGet_drain[OF assms] obtain y where
    "(Replied rep, wd1) = respond s r w sid (fst y) (snd y)" by blast
  then have "fst (respond s r w sid (fst y) (snd y)) = Replied rep" by (metis fst_conv)
  then show ?thesis by (rule respond_status)
qed

lemma status_decorate: "status (decorate w) = status w"
  by (simp add: decorate_def Header_Set_def)

lemma session_phase:
  assumes "\<not> isAppMode s"
    and "Header_Get (Header r) ''Cf-Connecting-Ip'' \<noteq> [] \<or> allowDirect s"
    and "session_id r \<noteq> []"
    and "handleRequest s wd env r = Some (out, s1, wd1)"
  shows "(\<exists>es. new_events wd wd1 = Load (session_id r) # es)
       \<and> (\<forall>rep. out = Replied rep \<longrightarrow> status rep = 200 \<or> status rep = 500)"
proof (cases "acquire s (dlog s ''Headers: %+v'' [H (Header r)]
                    (dlog s ''Request: %s %s from %s''
                       [S (Method r), S (Path r), S (Header_Get (Header r) ''Cf-Connecting-Ip'')] wd)) env (session_id r)")
  case (fields res s2 wd2)
  from acquire_trace[OF fields] obtain es where es: "trace wd2 = trace wd @ Load (session_id r) # es"
    by auto
  show ?thesis
  proof (cases res)
    case (Inl e)
    with assms fields es show ?thesis
      by (auto simp: handleRequest_def Let_def new_events_def http_Error_def)
  next
    case (Inr session)
    show ?thesis
    proof (cases "Method r = ''POST''")
      case True
      with assms fields Inr obtain wd4 where
        p: "handlePost (s2\<lparr>sessions := AList.update (session_id r) (session\<lparr>lastActive := clock wd2 + now_lock env\<rparr>) (sessions s2)\<rparr>)
              (tick (now_lock env) (emit [Lock (conn session)] wd2)) env r (decorate new_Response) (session_id r)
              (session\<lparr>lastActive := clock wd2 + now_lock env\<rparr>) = (out, wd4)"
        and w: "wd1 = emit [Unlock (conn session)] wd4"
        by (auto simp: handleRequest_def Let_def split: prod.splits)
      from handlePost_trace[OF p] es w have "\<exists>es. new_events wd wd1 = Load (session_id r) # es"
        by (auto simp: new_events_def)
      moreover have "\<forall>rep. out = Replied rep \<longrightarrow> status rep = 200 \<or> status rep = 500"
        using handlePost_status p by (fastforce simp: status_decorate new_Response_def)
      ultimately show ?thesis by simp
    next
      case False
      with assms fields Inr obtain wd4 where
        p: "handleGet (s2\<lparr>sessions := AList.update (session_id r) (session\<lparr>lastActive := clock wd2 + now_lock env\<rparr>) (sessions s2)\<rparr>)
              (tick (now_lock env) (emit [Lock (conn session)] wd2)) env r (decorate new_Response) (session_id r)
              (session\<lparr>lastActive := clock wd2 + now_lock env\<rparr>) = Some (out, wd4)"
        and w: "wd1 = emit [Unlock (conn session)] wd4"
        by (auto simp: handleRequest_def Let_def split: prod.splits option.splits)
      from handleGet_trace[OF p] es w have "\<exists>es. new_events wd wd1 = Load (session_id r) # es"
        by (auto simp: new_events_def)
      moreover have "\<forall>rep. out = Replied rep \<longrightarrow> status rep = 200 \<or> status rep = 500"
        using handleGet_status p by (fastforce simp: status_decorate new_Response_def)
      ultimately show ?thesis by simp
    qed
  qed
qed

subsection \<open>The admission filter\<close>

lemma refused_403:
  assumes "\<not> isAppMode s" and "Header_Get (Header r) ''Cf-Connecting-Ip'' = []"
    and "\<not> allowDirect s"
  shows "\<exists>rep wd1. handleRequest s wd env r = Some (Replied rep, s, wd1) \<and> status rep = 403
           \<and> body rep = ''Direct access not allowed'' @ [CHR 0x0A]
           \<and> new_events wd wd1 = []"
  using assms
  by (simp add: handleRequest_def Let_def http_Error_def new_Response_def new_events_def)

lemma missing_400:
  assumes "\<not> isAppMode s"
    and "Header_Get (Header r) ''Cf-Connecting-Ip'' \<noteq> [] \<or> allowDirect s"
    and "session_id r = []"
  shows "\<exists>rep wd1. handleRequest s wd env r = Some (Replied rep, s, wd1) \<and> status rep = 400
           \<and> body rep = ''Missing session ID'' @ [CHR 0x0A]
           \<and> new_events wd wd1 = []"
  using assms
  by (auto simp: handleRequest_def Let_def http_Error_def new_Response_def new_events_def
        decorate_def Header_Set_def)

lemma request_facts:
  "Method (request m h b) = m" "Body (request m h b) = Inr b"
  "session_id (request m [(''X-Ephemeral'', [v])] b) = v"
  by (simp_all add: request_def session_id_def Header_Get_def)

lemma proxy_server_mode: "\<not> isAppMode (proxy_server dbg direct)"
  by (simp add: input_defs)

lemma eval_get_abc:
  "handleRequest (proxy_server False True) world0 env0
     (request ''GET'' [(''X-Ephemeral'', [''abc''])] [])
   = Some (Replied (decorate new_Response),
           (proxy_server False True)
             \<lparr>sessions := [(''abc'', \<lparr>conn = 0, lastActive = 12, buffer = []\<rparr>)]\<rparr>,
           \<lparr>clock = 15, dialed = 1,
             trace = [Load ''abc'', Dial ''127.0.0.1:22'' (Inr 0), Store ''abc'' 0, Lock 0,
                      SetReadDeadline 0 50000015,
                      ConnRead 0 8192 (ReadErr (NetError True ''i/o timeout'')), Unlock 0],
             logs = []\<rparr>)"
  by (simp add: handler_defs input_defs drain.simps Millisecond_def)

text \<open>
  C6, amended. In proxy mode, for every request (whatever its method and path) whose
  \<open>Cf-Connecting-Ip\<close> header is empty: when \<open>allowDirect\<close> is unset the handler
  responds 403 with the line \<open>Direct access not allowed\<close>, leaves the table as it is and
  does nothing to the outside; when \<open>allowDirect\<close> is set, a request that has no
  session-id header either is answered 400 with the line \<open>Missing session ID\<close>, and one
  that has a session-id goes on to the session table (its first event is the \<open>Load\<close> of
  its session-id) and never gets a 403.
\<close>
theorem admission_filter:
  assumes "\<not> isAppMode s" and "Header_Get (Header r) ''Cf-Connecting-Ip'' = []"
  shows "(\<not> allowDirect s \<longrightarrow>
            (\<exists>rep wd1. handleRequest s wd env r = Some (Replied rep, s, wd1) \<and> status rep = 403
               \<and> body rep = ''Direct access not allowed'' @ [CHR 0x0A]
               \<and> new_events wd wd1 = []))
       \<and> (allowDirect s \<and> session_id r = [] \<longrightarrow>
            (\<exists>rep wd1. handleRequest s wd env r = Some (Replied rep, s, wd1) \<and> status rep = 400
               \<and> body rep = ''Missing session ID'' @ [CHR 0x0A]
               \<and> new_events wd wd1 = []))
       \<and> (allowDirect s \<and> session_id r \<noteq> [] \<longrightarrow>
            (\<forall>out s1 wd1. handleRequest s wd env r = Some (out, s1, wd1) \<longrightarrow>
               (\<exists>es. new_events wd wd1 = Load (session_id r) # es)
               \<and> (\<forall>rep. out = Replied rep \<longrightarrow> status rep = 200 \<or> status rep = 500)))"
proof (intro conjI impI allI)
  assume "\<not> allowDirect s"
  with assms
  show "\<exists>rep wd1. handleRequest s wd env r = Some (Replied rep, s, wd1) \<and> status rep = 403
          \<and> body rep = ''Direct access not allowed'' @ [CHR 0x0A] \<and> new_events wd wd1 = []"
    by (rule refused_403)
next
  assume "allowDirect s \<and> session_id r = []"
  with assms(1)
  show "\<exists>rep wd1. handleRequest s wd env r = Some (Replied rep, s, wd1) \<and> status rep = 400
          \<and> body rep = ''Missing session ID'' @ [CHR 0x0A] \<and> new_events wd wd1 = []"
    by (intro missing_400) simp_all
next
  fix out s1 wd1
  assume a: "allowDirect s \<and> session_id r \<noteq> []"
    and h: "handleRequest s wd env r = Some (out, s1, wd1)"
  from session_phase[OF assms(1) _ _ h] a
  show "\<exists>es. new_events wd wd1 = Load (session_id r) # es" by blast
  fix rep assume "out = Replied rep"
  with session_phase[OF assms(1) _ _ h] a
  show "status rep = 200 \<or> status rep = 500" by blast
qed

theorem admission_filter_witness:
  "(\<exists>rep wd1. handleRequest (proxy_server False False) world0 env0 (request ''GET'' [] [])
                 = Some (Replied rep, proxy_server False False, wd1)
               \<and> status rep = 403 \<and> body rep = ''Direct access not allowed'' @ [CHR 0x0A]
               \<and> new_events world0 wd1 = [])
   \<and> (\<exists>rep wd1. handleRequest (proxy_server False True) world0 env0 (request ''POST'' [] [])
                 = Some (Replied rep, proxy_server False True, wd1)
               \<and> status rep = 400 \<and> body rep = ''Missing session ID'' @ [CHR 0x0A]
               \<and> new_events world0 wd1 = [])
   \<and> (\<exists>out s1 wd1 es.
         handleRequest (proxy_server False True) world0 env0
           (request ''GET'' [(''X-Ephemeral'', [''abc''])] []) = Some (out, s1, wd1)
         \<and> new_events world0 wd1 = Load ''abc'' # es)"
proof -
  have h1: "Header_Get (Header (request ''GET'' [] [])) ''Cf-Connecting-Ip'' = []"
    and h2: "Header_Get (Header (request ''POST'' [] [])) ''Cf-Connecting-Ip'' = []"
    and h3: "Header_Get (Header (request ''GET'' [(''X-Ephemeral'', [''abc''])] []))
               ''Cf-Connecting-Ip'' = []"
    by (simp_all add: request_def Header_Get_def)
  have d1: "\<not> allowDirect (proxy_server False False)"
    and d2: "allowDirect (proxy_server False True)"
    by (simp_all add: input_defs)
  have s2: "session_id (request ''POST'' [] []) = []"
    and s3: "session_id (request ''GET'' [(''X-Ephemeral'', [''abc''])] []) = ''abc''"
    by (simp_all add: session_id_def request_def Header_Get_def)
  from admission_filter[OF proxy_server_mode h1, of False False world0 env0] d1
  have c1: "\<exists>rep wd1. handleRequest (proxy_server False False) world0 env0 (request ''GET'' [] [])
                 = Some (Replied rep, proxy_server False False, wd1)
               \<and> status rep = 403 \<and> body rep = ''Direct access not allowed'' @ [CHR 0x0A]
               \<and> new_events world0 wd1 = []"
    by blast
  from admission_filter[OF proxy_server_mode h2, of False True world0 env0] d2 s2
  have c2: "\<exists>rep wd1. handleRequest (proxy_server False True) world0 env0 (request ''POST'' [] [])
                 = Some (Replied rep, proxy_server False True, wd1)
               \<and> status rep = 400 \<and> body rep = ''Missing session ID'' @ [CHR 0x0A]
               \<and> new_events world0 wd1 = []"
    by blast
  from admission_filter[OF proxy_server_mode h3, of False True world0 env0] d2 s3 eval_get_abc
  have c3: "\<exists>out s1 wd1 es.
         handleRequest (proxy_server False True) world0 env0
           (request ''GET'' [(''X-Ephemeral'', [''abc''])] []) = Some (out, s1, wd1)
         \<and> new_events world0 wd1 = Load ''abc'' # es"
    by (metis list.simps(3))
  from c1 c2 c3 show ?thesis by blast
qed

text \<open>
  C6 as stated fails in application mode: with \<open>-a 'sshd -i'\<close> and no \<open>-allow-direct\<close>, a
  request without \<open>Cf-Connecting-Ip\<close> is answered 200 after the subprocess has run.
\<close>
theorem admission_filter_not_in_application_mode:
  "Header_Get (Header (request ''GET'' [] [])) ''Cf-Connecting-Ip'' = []
   \<and> \<not> allowDirect (NewServer [] [] ''sshd -i'' False False)
   \<and> handleRequest (NewServer [] [] ''sshd -i'' False False) world0 env0 (request ''GET'' [] [])
     = Some (Replied \<lparr>status = 200, hdr = [], body = []\<rparr>,
             NewServer [] [] ''sshd -i'' False False,
             world0\<lparr>trace := [CmdStart [''sshd'', ''-i''] None, Go ''stdout'', Go ''stderr'',
                              CmdWait None]\<rparr>)"
  by (simp add: handler_defs input_defs)

subsection \<open>The session-id\<close>

text \<open>
  C1, amended. In proxy mode the session-id of a request is the first non-empty value
  among its headers \<open>X-Ephemeral\<close>, \<open>Cf-Ray\<close>, \<open>Cf-Connecting-Ip\<close>, taken in that order,
  and it is the key the handler looks up first in the table when the request passes the
  admission filter with a session-id. If all three are empty the handler does no table
  operation and no backend I/O, and responds 400 with the line \<open>Missing session ID\<close>
  when \<open>allowDirect\<close> is set; when it is unset, the admission filter has already
  answered 403 with the line \<open>Direct access not allowed\<close>.
\<close>
theorem session_id_first_non_empty:
  assumes "\<not> isAppMode s"
  shows "session_id r =
           (case find (\<lambda>v. v \<noteq> [])
                   (map (Header_Get (Header r)) [''X-Ephemeral'', ''Cf-Ray'', ''Cf-Connecting-Ip''])
            of Some v \<Rightarrow> v | None \<Rightarrow> [])
       \<and> ((Header_Get (Header r) ''Cf-Connecting-Ip'' \<noteq> [] \<or> allowDirect s)
            \<and> session_id r \<noteq> [] \<longrightarrow>
           (\<forall>out s1 wd1. handleRequest s wd env r = Some (out, s1, wd1) \<longrightarrow>
              (\<exists>es. new_events wd wd1 = Load (session_id r) # es)))
       \<and> (Header_Get (Header r) ''X-Ephemeral'' = [] \<and> Header_Get (Header r) ''Cf-Ray'' = []
            \<and> Header_Get (Header r) ''Cf-Connecting-Ip'' = [] \<longrightarrow>
           (\<exists>rep wd1. handleRequest s wd env r = Some (Replied rep, s, wd1)
              \<and> new_events wd wd1 = []
              \<and> (if allowDirect s
                  then status rep = 400 \<and> body rep = ''Missing session ID'' @ [CHR 0x0A]
                  else status rep = 403 \<and> body rep = ''Direct access not allowed'' @ [CHR 0x0A])))"
proof (intro conjI impI allI)
  show "session_id r =
           (case find (\<lambda>v. v \<noteq> [])
                   (map (Header_Get (Header r)) [''X-Ephemeral'', ''Cf-Ray'', ''Cf-Connecting-Ip''])
            of Some v \<Rightarrow> v | None \<Rightarrow> [])"
    by (simp add: session_id_def Let_def)
next
  fix out s1 wd1
  assume a: "(Header_Get (Header r) ''Cf-Connecting-Ip'' \<noteq> [] \<or> allowDirect s) \<and> session_id r \<noteq> []"
    and h: "handleRequest s wd env r = Some (out, s1, wd1)"
  from session_phase[OF assms _ _ h] a
  show "\<exists>es. new_events wd wd1 = Load (session_id r) # es" by blast
next
  assume e: "Header_Get (Header r) ''X-Ephemeral'' = [] \<and> Header_Get (Header r) ''Cf-Ray'' = []
            \<and> Header_Get (Header r) ''Cf-Connecting-Ip'' = []"
  then have sid: "session_id r = []" by (simp add: session_id_def)
  show "\<exists>rep wd1. handleRequest s wd env r = Some (Replied rep, s, wd1)
              \<and> new_events wd wd1 = []
              \<and> (if allowDirect s
                  then status rep = 400 \<and> body rep = ''Missing session ID'' @ [CHR 0x0A]
                  else status rep = 403 \<and> body rep = ''Direct access not allowed'' @ [CHR 0x0A])"
  proof (cases "allowDirect s")
    case True
    with missing_400[OF assms _ sid, of wd env] show ?thesis by auto
  next
    case False
    with refused_403[OF assms _ False, of r wd env] e show ?thesis by auto
  qed
qed

theorem session_id_first_non_empty_witness:
  "session_id (request ''GET'' [(''Cf-Ray'', [''8f2a'']), (''Cf-Connecting-Ip'', [''1.2.3.4''])] [])
     = ''8f2a''
   \<and> (\<exists>out s1 wd1 es.
         handleRequest (proxy_server False True) world0 env0
           (request ''GET'' [(''X-Ephemeral'', [''abc''])] []) = Some (out, s1, wd1)
         \<and> new_events world0 wd1 = Load ''abc'' # es)
   \<and> (\<exists>rep wd1. handleRequest (proxy_server False True) world0 env0 (request ''GET'' [] [])
                   = Some (Replied rep, proxy_server False True, wd1)
                 \<and> new_events world0 wd1 = []
                 \<and> status rep = 400 \<and> body rep = ''Missing session ID'' @ [CHR 0x0A])"
proof -
  note t = session_id_first_non_empty[OF proxy_server_mode]
  from t[of "request ''GET'' [(''Cf-Ray'', [''8f2a'']), (''Cf-Connecting-Ip'', [''1.2.3.4''])] []"]
  have c1: "session_id (request ''GET'' [(''Cf-Ray'', [''8f2a'']), (''Cf-Connecting-Ip'', [''1.2.3.4''])] [])
     = ''8f2a''"
    by (simp add: request_def Header_Get_def)
  have s3: "session_id (request ''GET'' [(''X-Ephemeral'', [''abc''])] []) = ''abc''"
    by (simp add: session_id_def request_def Header_Get_def)
  have d: "allowDirect (proxy_server False True)" by (simp add: input_defs)
  from t[of "request ''GET'' [(''X-Ephemeral'', [''abc''])] []" False True world0 env0] d s3 eval_get_abc
  have c2: "\<exists>out s1 wd1 es.
         handleRequest (proxy_server False True) world0 env0
           (request ''GET'' [(''X-Ephemeral'', [''abc''])] []) = Some (out, s1, wd1)
         \<and> new_events world0 wd1 = Load ''abc'' # es"
    by (metis list.simps(3))
  have h: "Header_Get (Header (request ''GET'' [] [])) ''X-Ephemeral'' = []
         \<and> Header_Get (Header (request ''GET'' [] [])) ''Cf-Ray'' = []
         \<and> Header_Get (Header (request ''GET'' [] [])) ''Cf-Connecting-Ip'' = []"
    by (simp add: request_def Header_Get_def)
  from t[of "request ''GET'' [] []" False True world0 env0] d h
  have c3: "\<exists>rep wd1. handleRequest (proxy_server False True) world0 env0 (request ''GET'' [] [])
                   = Some (Replied rep, proxy_server False True, wd1)
                 \<and> new_events world0 wd1 = []
                 \<and> status rep = 400 \<and> body rep = ''Missing session ID'' @ [CHR 0x0A]"
    by auto
  from c1 c2 c3 show ?thesis by blast
qed

text \<open>
  C1 as stated fails when \<open>allowDirect\<close> is unset: a request with none of the three
  headers is answered 403 by the admission filter, not 400.
\<close>
theorem missing_session_id_refused_403:
  "\<not> isAppMode (proxy_server False False)
   \<and> Header_Get (Header (request ''GET'' [] [])) ''X-Ephemeral'' = []
   \<and> Header_Get (Header (request ''GET'' [] [])) ''Cf-Ray'' = []
   \<and> Header_Get (Header (request ''GET'' [] [])) ''Cf-Connecting-Ip'' = []
   \<and> handleRequest (proxy_server False False) world0 env0 (request ''GET'' [] [])
     = Some (Replied \<lparr>status = 403,
                      hdr = [(''Content-Type'', ''text/plain; charset=utf-8''),
                             (''X-Content-Type-Options'', ''nosniff'')],
                      body = ''Direct access not allowed'' @ [CHR 0x0A]\<rparr>,
             proxy_server False False, world0)"
  by (simp add: handler_defs input_defs)

text \<open>
  The loop ends at the latest with the first read that does not fill the buffer, whether
  a log call panics before or not.
\<close>
lemma drain_returns:
  assumes "\<not> fills (read_results env (k + n))"
  shows "\<exists>y. drain s sessionID c env k readData wd = Some y"
  using assms
proof (induction n arbitrary: k readData wd)
  case 0
  then have "\<not> fills (read_results env k)" by simp
  then show ?case
    by (subst drain.simps)
       (auto simp: Let_def fills_def conn_Read_def split: read_result.splits)
next
  case (Suc n)
  show ?case
  proof (cases "fills (read_results env k)")
    case False
    then show ?thesis
      by (subst drain.simps)
         (auto simp: Let_def fills_def conn_Read_def split: read_result.splits)
  next
    case True
    then obtain bs where bs: "read_results env k = ReadOk bs" "8192 \<le> length bs"
      by (auto simp: fills_def split: read_result.splits)
    have last: "\<not> fills (read_results env (Suc k + n))"
      using Suc.prems by simp
    from Suc.IH[OF last] bs show ?thesis
      by (subst drain.simps) (simp add: Let_def conn_Read_def)
  qed
qed

subsection \<open>The session phase of a request\<close>

lemma acquire_Inl:
  assumes "acquire s wd env sid = (Inl e, s2, wd2)"
  shows "s2 = s \<and> trace wd2 = trace wd @ [Load sid, Dial (destHost s @ '':'' @ destPort s) (Inl e)]
       \<and> clock wd2 = clock wd \<and> dialed wd2 = dialed wd
       \<and> map_of (sessions s) sid = None \<and> dial_result env = Some e"
  using assms
  by (auto simp: acquire_def sessions_Load_def net_Dial_def sessions_Store_def Let_def
           split: option.splits)

lemma acquire_Inr:
  assumes "acquire s wd env sid = (Inr session, s2, wd2)"
  shows "map_of (sessions s2) sid = Some session \<and> clock wd \<le> clock wd2
       \<and> s2 = s\<lparr>sessions := sessions s2\<rparr>
       \<and> (map_of (sessions s) sid = Some session \<and> s2 = s \<and> trace wd2 = trace wd @ [Load sid]
            \<and> clock wd2 = clock wd \<and> dialed wd2 = dialed wd
          \<or> map_of (sessions s) sid = None \<and> dial_result env = None
            \<and> session = \<lparr>conn = dialed wd, lastActive = clock wd + now_create env, buffer = []\<rparr>
            \<and> sessions s2 = AList.update sid session (sessions s)
            \<and> trace wd2 = trace wd @ [Load sid, Dial (destHost s @ '':'' @ destPort s) (Inr (dialed wd)),
                                       Store sid (dialed wd)]
            \<and> clock wd2 = clock wd + now_create env \<and> dialed wd2 = Suc (dialed wd))"
  using assms
  by (auto simp: acquire_def sessions_Load_def net_Dial_def sessions_Store_def Let_def
           AList.update_conv' split: option.splits)

lemma World_logged_in [simp]:
  "trace (logged_in s r wd) = trace wd" "clock (logged_in s r wd) = clock wd"
  "dialed (logged_in s r wd) = dialed wd"
  by (simp_all add: logged_in_def)

lemma served_dial_failed:
  assumes "\<not> isAppMode s"
    and "Header_Get (Header r) ''Cf-Connecting-Ip'' \<noteq> [] \<or> allowDirect s"
    and "session_id r \<noteq> []"
    and "acquire s (logged_in s r wd) env (session_id r) = (Inl e, s2, wd2)"
  shows "handleRequest s wd env r = Some (Replied (http_Error (decorate new_Response) e 500), s2, wd2)"
  using assms by (auto simp: handleRequest_def Let_def logged_in_def)

lemma served_post:
  assumes "\<not> isAppMode s"
    and "Header_Get (Header r) ''Cf-Connecting-Ip'' \<noteq> [] \<or> allowDirect s"
    and "session_id r \<noteq> []"
    and "acquire s (logged_in s r wd) env (session_id r) = (Inr session, s2, wd2)"
    and "Method r = ''POST''"
  shows "handleRequest s wd env r =
          (let session1 = session\<lparr>lastActive := clock wd2 + now_lock env\<rparr>;
               s3 = s2\<lparr>sessions := AList.update (session_id r) session1 (sessions s2)\<rparr>;
               res = handlePost s3 (tick (now_lock env) (emit [Lock (conn session)] wd2)) env r
                       (decorate new_Response) (session_id r) session1
           in Some (fst res, s3, emit [Unlock (conn session)] (snd res)))"
  using assms by (auto simp: handleRequest_def Let_def logged_in_def split: prod.splits)

lemma served_get:
  assumes "\<not> isAppMode s"
    and "Header_Get (Header r) ''Cf-Connecting-Ip'' \<noteq> [] \<or> allowDirect s"
    and "session_id r \<noteq> []"
    and "acquire s (logged_in s r wd) env (session_id r) = (Inr session, s2, wd2)"
    and "Method r \<noteq> ''POST''"
  shows "handleRequest s wd env r =
          (let session1 = session\<lparr>lastActive := clock wd2 + now_lock env\<rparr>;
               s3 = s2\<lparr>sessions := AList.update (session_id r) session1 (sessions s2)\<rparr>
           in case drain s3 (session_id r) (conn session) env 0 []
                     (tick (now_lock env) (emit [Lock (conn session)] wd2)) of
                None \<Rightarrow> None
              | Some (d, wd4) \<Rightarrow>
                  Some (fst (respond s3 r (decorate new_Response) (session_id r) d wd4), s3,
                        emit [Unlock (conn session)]
                          (snd (respond s3 r (decorate new_Response) (session_id r) d wd4))))"
  using assms
  by (auto simp: handleRequest_def handleGet_def Let_def logged_in_def split: prod.splits option.splits)

lemma ConnRead_in_drain_events:
  "ConnRead c1 b res \<in> set (drain_events c env clk k n) \<Longrightarrow>
     c1 = c \<and> b = 8192 \<and> (\<exists>j<n. res = conn_Read 8192 (read_results env (k + j)))"
proof (induction n arbitrary: clk k)
  case 0
  then show ?case by simp
next
  case (Suc n)
  from Suc.prems consider "ConnRead c1 b res = ConnRead c 8192 (conn_Read 8192 (read_results env k))"
    | "ConnRead c1 b res \<in> set (drain_events c env (clk + now_read env k) (Suc k) n)"
    by auto
  then show ?case
  proof cases
    case 1
    then show ?thesis by auto
  next
    case 2
    from Suc.IH[OF 2] obtain j where "c1 = c" "b = 8192" "j < n"
      "res = conn_Read 8192 (read_results env (Suc k + j))" by blast
    then show ?thesis by (intro conjI exI[of _ "Suc j"]) simp_all
  qed
qed

lemma fills_ReadOk: "fills res \<Longrightarrow> \<exists>ch. conn_Read 8192 res = ReadOk ch"
  by (auto simp: fills_def conn_Read_def split: read_result.splits)

lemma handlePost_no_read:
  "\<exists>es. trace (snd (handlePost s wd env r w sid session)) = trace wd @ es
        \<and> (\<forall>c n res. ConnRead c n res \<notin> set es)"
  by (auto simp: handlePost_def Let_def split: sum.splits if_splits option.splits)

lemma drain_events_kinds:
  "e \<in> set (drain_events c env clk k n) \<Longrightarrow>
     (\<exists>t. e = SetReadDeadline c t) \<or> (\<exists>res. e = ConnRead c 8192 res)"
  by (induction n arbitrary: clk k) auto

lemma new_events_append: "trace wd1 = trace wd @ es \<Longrightarrow> new_events wd wd1 = es"
  by (simp add: new_events_def)

lemma body_http_Error_decorate:
  "status (http_Error (decorate new_Response) msg code) = code"
  "body (http_Error (decorate new_Response) msg code) = msg @ [CHR 0x0A]"
  by (simp_all add: http_Error_def decorate_def Header_Set_def new_Response_def)

text \<open>
  The whole of a GET that returns, from the session on: the events are those of the
  loop between \<open>Lock\<close> and \<open>Unlock\<close>, and the outcome is the response to how the loop
  ended.
\<close>
lemma get_returns:
  assumes proxy: "\<not> isAppMode s"
    and admitted: "Header_Get (Header r) ''Cf-Connecting-Ip'' \<noteq> [] \<or> allowDirect s"
    and sid: "session_id r \<noteq> []"
    and acq: "acquire s (logged_in s r wd) env (session_id r) = (Inr session, s2, wd2)"
    and get: "Method r \<noteq> ''POST''"
    and h: "handleRequest s wd env r = Some (out, s1, wd1)"
  shows "\<exists>n wdx. trace wd1 = trace wd2 @ [Lock (conn session)]
                       @ drain_events (conn session) env (clock wd2 + now_lock env) 0 (Suc n)
                       @ [Unlock (conn session)]
           \<and> (\<forall>j<n. fills (read_results env j))
           \<and> (0 < n \<longrightarrow> \<not> (debug s \<and> length (session_id r) < 8))
           \<and> (fills (read_results env n) \<longrightarrow> debug s \<and> length (session_id r) < 8)
           \<and> out = fst (respond s r (decorate new_Response) (session_id r)
                          (drain_ends s (session_id r) env 0 [] n) wdx)
           \<and> s1 = s2\<lparr>sessions := AList.update (session_id r)
                         (session\<lparr>lastActive := clock wd2 + now_lock env\<rparr>) (sessions s2)\<rparr>
           \<and> clock wd2 + now_lock env \<le> clock wd1 \<and> dialed wd1 = dialed wd2"
proof -
  let ?session1 = "session\<lparr>lastActive := clock wd2 + now_lock env\<rparr>"
  let ?s3 = "s2\<lparr>sessions := AList.update (session_id r) ?session1 (sessions s2)\<rparr>"
  let ?wd3 = "tick (now_lock env) (emit [Lock (conn session)] wd2)"
  from acquire_Inr[OF acq] have s2: "s2 = s\<lparr>sessions := sessions s2\<rparr>" by blast
  then have dbg: "debug ?s3 = debug s" by (metis Server.select_convs(4) Server.surjective Server.update_convs(1))
  from h served_get[OF proxy admitted sid acq get]
  obtain d wd4 where dr: "drain ?s3 (session_id r) (conn session) env 0 [] ?wd3 = Some (d, wd4)"
    and out: "out = fst (respond ?s3 r (decorate new_Response) (session_id r) d wd4)"
    and s1: "s1 = ?s3"
    and wd1: "wd1 = emit [Unlock (conn session)]
                     (snd (respond ?s3 r (decorate new_Response) (session_id r) d wd4))"
    by (auto simp: Let_def split: option.splits)
  from drain_SomeD[OF dr] obtain n where n:
    "trace wd4 = trace ?wd3 @ drain_events (conn session) env (clock ?wd3) 0 (Suc n)"
    "clock ?wd3 \<le> clock wd4" "dialed wd4 = dialed ?wd3"
    "\<forall>j<n. fills (read_results env j)"
    "0 < n \<longrightarrow> \<not> (debug ?s3 \<and> length (session_id r) < 8)"
    "fills (read_results env n) \<longrightarrow> debug ?s3 \<and> length (session_id r) < 8"
    "d = drain_ends ?s3 (session_id r) env 0 [] n"
    unfolding drain_post_def by auto
  have ends: "drain_ends ?s3 (session_id r) env 0 [] n = drain_ends s (session_id r) env 0 [] n"
    using dbg by (simp add: drain_ends_def split: read_result.splits)
  have resp: "fst (respond ?s3 r (decorate new_Response) (session_id r) d wd4)
            = fst (respond s r (decorate new_Response) (session_id r) d wd4)"
    using dbg by (auto simp: respond_def dlog_def Let_def split: drained.splits)
  show ?thesis
    apply (intro exI[of _ n] exI[of _ wd4])
    using n out s1 wd1 ends resp dbg by simp
qed


subsection \<open>A read that fails\<close>

text \<open>
  A call of the handler returns when some read of the backend does not fill the buffer,
  as a read that fails does not.
\<close>
lemma handleRequest_returns:
  assumes "\<not> fills (read_results env n)"
  shows "\<exists>y. handleRequest s wd env r = Some y"
proof (cases "isAppMode s")
  case True
  then have "handleRequest s wd env r = Some (handleApplication s wd env r)"
    by (simp add: handleRequest_def)
  then show ?thesis by blast
next
  case proxy: False
  show ?thesis
  proof (cases "Header_Get (Header r) ''Cf-Connecting-Ip'' \<noteq> [] \<or> allowDirect s")
    case False
    with proxy show ?thesis by (simp add: handleRequest_def Let_def)
  next
    case admitted: True
    show ?thesis
    proof (cases "session_id r = []")
      case True
      with proxy admitted show ?thesis by (auto simp: handleRequest_def Let_def)
    next
      case sid: False
      obtain res s2 wd2 where acq: "acquire s (logged_in s r wd) env (session_id r) = (res, s2, wd2)"
        by (cases "acquire s (logged_in s r wd) env (session_id r)") auto
      show ?thesis
      proof (cases res)
        case (Inl e)
        from served_dial_failed[OF proxy admitted sid acq[unfolded Inl]] show ?thesis by simp
      next
        case (Inr session)
        note acq = acq[unfolded Inr]
        show ?thesis
        proof (cases "Method r = ''POST''")
          case True
          from served_post[OF proxy admitted sid acq True] show ?thesis by (simp add: Let_def)
        next
          case False
          from drain_returns[of env 0 n] assms
          obtain y where "drain (s2\<lparr>sessions := AList.update (session_id r)
                                 (session\<lparr>lastActive := clock wd2 + now_lock env\<rparr>) (sessions s2)\<rparr>)
                            (session_id r) (conn session) env 0 []
                            (tick (now_lock env) (emit [Lock (conn session)] wd2)) = Some y"
            by fastforce
          with served_get[OF proxy admitted sid acq False] show ?thesis
            by (cases y) (simp add: Let_def)
        qed
      qed
    qed
  qed
qed

lemma acquire_ok:
  assumes "map_of (sessions s) sid = None \<longrightarrow> dial_result env = None"
  shows "\<exists>session s2 wd2. acquire s wd env sid = (Inr session, s2, wd2)
           \<and> conn session = (case map_of (sessions s) sid of Some old \<Rightarrow> conn old | None \<Rightarrow> dialed wd)"
  using assms
  by (auto simp: acquire_def sessions_Load_def net_Dial_def sessions_Store_def Let_def
           split: option.splits)

lemma last_read_in_drain_events:
  "ConnRead c 8192 (conn_Read 8192 (read_results env (k + n))) \<in> set (drain_events c env clk k (Suc n))"
proof (induction n arbitrary: k clk)
  case 0
  show ?case by simp
next
  case (Suc n)
  have "drain_events c env clk k (Suc (Suc n)) =
          [SetReadDeadline c (clk + now_read env k + 50 * Millisecond),
           ConnRead c 8192 (conn_Read 8192 (read_results env k))]
          @ drain_events c env (clk + now_read env k) (Suc k) (Suc n)"
    by (rule drain_events.simps(2))
  moreover from Suc.IH[of "Suc k" "clk + now_read env k"]
  have "ConnRead c 8192 (conn_Read 8192 (read_results env (k + Suc n)))
          \<in> set (drain_events c env (clk + now_read env k) (Suc k) (Suc n))"
    by (simp del: drain_events.simps)
  ultimately show ?case by (simp del: drain_events.simps)
qed


text \<open>
  What a read that failed with an error other than \<open>io.EOF\<close> and a timeout does to the
  call that made it.
\<close>
lemma read_error_answered:
  assumes h: "handleRequest s wd env r = Some (out, s1, wd1)"
    and read: "ConnRead c b (ReadErr err) \<in> set (new_events wd wd1)"
    and hard: "err \<noteq> EOF" "\<not> Timeout err"
  shows "(\<exists>rep. out = Replied rep \<and> status rep = 500 \<and> body rep = Error_text err @ [CHR 0x0A])
       \<and> (\<exists>session. map_of (sessions s1) (session_id r) = Some session \<and> conn session = c)
       \<and> ConnClose c \<notin> set (new_events wd wd1)
       \<and> Delete (session_id r) \<notin> set (new_events wd wd1)"
proof -
  have proxy: "\<not> isAppMode s"
  proof
    assume "isAppMode s"
    with h read show False
      by (auto simp: handleRequest_def handleApplication_def Let_def new_events_def
               split: if_splits option.splits)
  qed
  have admitted: "Header_Get (Header r) ''Cf-Connecting-Ip'' \<noteq> [] \<or> allowDirect s"
  proof (rule ccontr)
    assume "\<not> ?thesis"
    with refused_403[OF proxy, of r wd env] h have "new_events wd wd1 = []" by auto
    with read show False by simp
  qed
  have sid: "session_id r \<noteq> []"
  proof
    assume "session_id r = []"
    with missing_400[OF proxy admitted, of wd env] h have "new_events wd wd1 = []" by auto
    with read show False by simp
  qed
  obtain res s2 wd2 where acq: "acquire s (logged_in s r wd) env (session_id r) = (res, s2, wd2)"
    by (cases "acquire s (logged_in s r wd) env (session_id r)") auto
  show ?thesis
  proof (cases res)
    case (Inl e)
    from served_dial_failed[OF proxy admitted sid acq[unfolded Inl]] h have "wd1 = wd2" by simp
    with acquire_Inl[OF acq[unfolded Inl]] have "new_events wd wd1 = [Load (session_id r), Dial (destHost s @ '':'' @ destPort s) (Inl e)]"
      by (simp add: new_events_def)
    with read show ?thesis by simp
  next
    case (Inr session)
    note acq = acq[unfolded Inr]
    from acquire_Inr[OF acq] obtain pre where pre: "trace wd2 = trace wd @ pre"
      "\<forall>e\<in>set pre. (\<exists>k. e = Load k) \<or> (\<exists>a x. e = Dial a x) \<or> (\<exists>k x. e = Store k x)"
      and tab: "map_of (sessions s2) (session_id r) = Some session"
      by auto
    show ?thesis
    proof (cases "Method r = ''POST''")
      case True
      let ?res = "handlePost (s2\<lparr>sessions := AList.update (session_id r) (session\<lparr>lastActive := clock wd2 + now_lock env\<rparr>) (sessions s2)\<rparr>)
              (tick (now_lock env) (emit [Lock (conn session)] wd2)) env r (decorate new_Response) (session_id r)
              (session\<lparr>lastActive := clock wd2 + now_lock env\<rparr>)"
      from served_post[OF proxy admitted sid acq True] h
      have wd1: "wd1 = emit [Unlock (conn session)] (snd ?res)" by (simp add: Let_def)
      from handlePost_no_read[of _ "tick (now_lock env) (emit [Lock (conn session)] wd2)"]
      obtain es where "trace (snd ?res) = trace wd2 @ [Lock (conn session)] @ es"
        "\<forall>c n res. ConnRead c n res \<notin> set es" by fastforce
      with wd1 pre have "new_events wd wd1 = pre @ [Lock (conn session)] @ es @ [Unlock (conn session)]"
        by (simp add: new_events_def)
      with read pre(2) \<open>\<forall>c n res. ConnRead c n res \<notin> set es\<close> show ?thesis by auto
    next
      case False
      from get_returns[OF proxy admitted sid acq False h] obtain n wdx where
        tr: "trace wd1 = trace wd2 @ [Lock (conn session)]
                       @ drain_events (conn session) env (clock wd2 + now_lock env) 0 (Suc n)
                       @ [Unlock (conn session)]"
        and full: "\<forall>j<n. fills (read_results env j)"
        and out: "out = fst (respond s r (decorate new_Response) (session_id r)
                          (drain_ends s (session_id r) env 0 [] n) wdx)"
        and s1: "s1 = s2\<lparr>sessions := AList.update (session_id r)
                         (session\<lparr>lastActive := clock wd2 + now_lock env\<rparr>) (sessions s2)\<rparr>"
        by blast
      let ?de = "drain_events (conn session) env (clock wd2 + now_lock env) 0 (Suc n)"
      from tr pre have ne: "new_events wd wd1 = pre @ [Lock (conn session)] @ ?de @ [Unlock (conn session)]"
        by (simp add: new_events_def)
      with read pre(2) have "ConnRead c b (ReadErr err) \<in> set ?de" by auto
      from ConnRead_in_drain_events[OF this] obtain j where j: "c = conn session" "j < Suc n"
        "ReadErr err = conn_Read 8192 (read_results env j)" by auto
      have "j = n"
      proof (rule ccontr)
        assume "j \<noteq> n"
        with j(2) have "j < n" by simp
        with full have "fills (read_results env j)" by simp
        from fills_ReadOk[OF this] j(3) show False by auto
      qed
      with j(3)[symmetric] hard have "drain_ends s (session_id r) env 0 [] n = ReadFailed err"
        by (simp add: drain_ends_def)
      with out have o: "out = Replied (http_Error (decorate new_Response) (Error_text err) 500)"
        by (simp add: respond_def)
      have t: "map_of (sessions s1) (session_id r) = Some (session\<lparr>lastActive := clock wd2 + now_lock env\<rparr>)"
        using s1 by (simp add: AList.update_conv')
      have nc: "ConnClose c \<notin> set (new_events wd wd1)" "Delete (session_id r) \<notin> set (new_events wd wd1)"
        using ne pre(2) drain_events_kinds[of _ "conn session" env "clock wd2 + now_lock env" 0 "Suc n"]
        by auto
      from o t j(1) nc show ?thesis
        by (simp add: body_http_Error_decorate)
    qed
  qed
qed

text \<open>
  The loop of a GET gets to its read number \<open>n\<close> when the reads before it filled the buffer
  and, if there were any, the log call after them did not panic.
\<close>
lemma get_reaches_read:
  assumes proxy: "\<not> isAppMode s"
    and admitted: "Header_Get (Header r) ''Cf-Connecting-Ip'' \<noteq> [] \<or> allowDirect s"
    and sid: "session_id r \<noteq> []"
    and get: "Method r \<noteq> ''POST''"
    and sess: "map_of (sessions s) (session_id r) = None \<longrightarrow> dial_result env = None"
    and full: "\<forall>j<n. fills (read_results env j)"
    and last: "\<not> fills (read_results env n)"
    and noslip: "0 < n \<longrightarrow> \<not> (debug s \<and> length (session_id r) < 8)"
  shows "\<exists>out s1 wd1. handleRequest s wd env r = Some (out, s1, wd1)
           \<and> ConnRead (case map_of (sessions s) (session_id r) of
                          Some old \<Rightarrow> conn old | None \<Rightarrow> dialed wd)
                 8192 (conn_Read 8192 (read_results env n)) \<in> set (new_events wd wd1)"
proof -
  from acquire_ok[OF sess, of "logged_in s r wd"] obtain session s2 wd2 where
    acq: "acquire s (logged_in s r wd) env (session_id r) = (Inr session, s2, wd2)"
    and c0: "conn session = (case map_of (sessions s) (session_id r) of
                               Some old \<Rightarrow> conn old | None \<Rightarrow> dialed (logged_in s r wd))"
    by blast
  from c0 have c: "conn session = (case map_of (sessions s) (session_id r) of
                               Some old \<Rightarrow> conn old | None \<Rightarrow> dialed wd)"
    by (simp split: option.splits)
  from handleRequest_returns[OF last, of s wd r] obtain out s1 wd1 where
    h: "handleRequest s wd env r = Some (out, s1, wd1)"
    by (metis prod_cases3)
  from get_returns[OF proxy admitted sid acq get h] obtain m where
    tr: "trace wd1 = trace wd2 @ [Lock (conn session)]
                       @ drain_events (conn session) env (clock wd2 + now_lock env) 0 (Suc m)
                       @ [Unlock (conn session)]"
    and fullm: "\<forall>j<m. fills (read_results env j)"
    and nsm: "0 < m \<longrightarrow> \<not> (debug s \<and> length (session_id r) < 8)"
    and lastm: "fills (read_results env m) \<longrightarrow> debug s \<and> length (session_id r) < 8"
    by blast
  have "m = n"
  proof (rule ccontr)
    assume "m \<noteq> n"
    then consider "m < n" | "n < m" by linarith
    then show False
    proof cases
      case 1
      with full have "fills (read_results env m)" by simp
      with lastm have "debug s \<and> length (session_id r) < 8" by simp
      moreover from 1 have "0 < n" by simp
      ultimately show False using noslip by simp
    next
      case 2
      with fullm have "fills (read_results env n)" by simp
      with last show False by simp
    qed
  qed
  from acquire_Inr[OF acq] obtain pre where pre: "trace wd2 = trace wd @ pre"
    by auto
  from last_read_in_drain_events[of "conn session" env 0 n "clock wd2 + now_lock env"]
  have "ConnRead (conn session) 8192 (conn_Read 8192 (read_results env n))
          \<in> set (drain_events (conn session) env (clock wd2 + now_lock env) 0 (Suc n))"
    by (simp del: drain_events.simps)
  with tr pre \<open>m = n\<close> have "ConnRead (conn session) 8192 (conn_Read 8192 (read_results env n))
          \<in> set (new_events wd wd1)"
    by (simp add: new_events_def del: drain_events.simps)
  with h c show ?thesis by auto
qed

text \<open>
  C5. A call of the handler returns whenever some read of the backend does not fill the
  buffer, as a read that fails does not. Whenever a read made by a call returns an error
  that is neither \<open>io.EOF\<close> nor a timeout, the call responds 500 with the text of that
  error, and the session is still in the table under the request's session-id, with the
  same connection, on which \<open>Close\<close> has not been called. And a call makes that read and
  returns: for a request other than a POST, in proxy mode, that passes the admission
  filter with a session-id whose session is in the table or can be dialled, when read
  number \<open>n\<close> fails so after the reads before it have filled the buffer (and, if there
  were any, the log call after them did not panic, which it does with \<open>debug\<close> set and a
  session-id shorter than 8 bytes, so that the loop got to read \<open>n\<close>).
\<close>
theorem hard_read_error_500:
  assumes hard: "err \<noteq> EOF" "\<not> Timeout err"
  shows "(\<not> fills (read_results env n) \<longrightarrow> (\<exists>y. handleRequest s wd env r = Some y))
       \<and> (\<forall>out s1 wd1 c b.
            handleRequest s wd env r = Some (out, s1, wd1)
            \<and> ConnRead c b (ReadErr err) \<in> set (new_events wd wd1) \<longrightarrow>
              (\<exists>rep. out = Replied rep \<and> status rep = 500 \<and> body rep = Error_text err @ [CHR 0x0A])
            \<and> (\<exists>session. map_of (sessions s1) (session_id r) = Some session \<and> conn session = c)
            \<and> ConnClose c \<notin> set (new_events wd wd1)
            \<and> Delete (session_id r) \<notin> set (new_events wd wd1))
       \<and> (\<not> isAppMode s
            \<and> (Header_Get (Header r) ''Cf-Connecting-Ip'' \<noteq> [] \<or> allowDirect s)
            \<and> session_id r \<noteq> [] \<and> Method r \<noteq> ''POST''
            \<and> (map_of (sessions s) (session_id r) = None \<longrightarrow> dial_result env = None)
            \<and> (\<forall>j<n. fills (read_results env j))
            \<and> read_results env n = ReadErr err
            \<and> (0 < n \<longrightarrow> \<not> (debug s \<and> length (session_id r) < 8)) \<longrightarrow>
              (\<exists>out s1 wd1. handleRequest s wd env r = Some (out, s1, wd1)
                 \<and> ConnRead (case map_of (sessions s) (session_id r) of
                                Some old \<Rightarrow> conn old | None \<Rightarrow> dialed wd)
                       8192 (ReadErr err) \<in> set (new_events wd wd1)))"
proof (intro conjI allI impI)
  assume "\<not> fills (read_results env n)"
  from handleRequest_returns[OF this] show "\<exists>y. handleRequest s wd env r = Some y" .
next
  fix out s1 wd1 c b
  assume a: "handleRequest s wd env r = Some (out, s1, wd1)
            \<and> ConnRead c b (ReadErr err) \<in> set (new_events wd wd1)"
  then have h: "handleRequest s wd env r = Some (out, s1, wd1)"
    and rd: "ConnRead c b (ReadErr err) \<in> set (new_events wd wd1)" by simp_all
  note ans = read_error_answered[OF h rd hard]
  from ans show "\<exists>rep. out = Replied rep \<and> status rep = 500 \<and> body rep = Error_text err @ [CHR 0x0A]"
    by blast
  from ans show "\<exists>session. map_of (sessions s1) (session_id r) = Some session \<and> conn session = c"
    by blast
  from ans show "ConnClose c \<notin> set (new_events wd wd1)" by blast
  from ans show "Delete (session_id r) \<notin> set (new_events wd wd1)" by blast
next
  assume a: "\<not> isAppMode s
            \<and> (Header_Get (Header r) ''Cf-Connecting-Ip'' \<noteq> [] \<or> allowDirect s)
            \<and> session_id r \<noteq> [] \<and> Method r \<noteq> ''POST''
            \<and> (map_of (sessions s) (session_id r) = None \<longrightarrow> dial_result env = None)
            \<and> (\<forall>j<n. fills (read_results env j))
            \<and> read_results env n = ReadErr err
            \<and> (0 < n \<longrightarrow> \<not> (debug s \<and> length (session_id r) < 8))"
  then have rd: "read_results env n = ReadErr err" by simp
  then have nf: "\<not> fills (read_results env n)" by (simp add: fills_def)
  from rd have cr: "conn_Read 8192 (read_results env n) = ReadErr err" by (simp add: conn_Read_def)
  from a have p: "\<not> isAppMode s" "Header_Get (Header r) ''Cf-Connecting-Ip'' \<noteq> [] \<or> allowDirect s"
    "session_id r \<noteq> []" "Method r \<noteq> ''POST''"
    "map_of (sessions s) (session_id r) = None \<longrightarrow> dial_result env = None"
    "\<forall>j<n. fills (read_results env j)"
    "0 < n \<longrightarrow> \<not> (debug s \<and> length (session_id r) < 8)"
    by simp_all
  from get_reaches_read[OF p(1-6) nf p(7), of wd] cr
  show "\<exists>out s1 wd1. handleRequest s wd env r = Some (out, s1, wd1)
                 \<and> ConnRead (case map_of (sessions s) (session_id r) of
                                Some old \<Rightarrow> conn old | None \<Rightarrow> dialed wd)
                       8192 (ReadErr err) \<in> set (new_events wd wd1)"
    by simp
qed

lemma eval_get_reset:
  "handleRequest (proxy_server False True) world0 env_reset
     (request ''GET'' [(''X-Ephemeral'', [''abc''])] [])
   = Some (Replied (http_Error (decorate new_Response) ''read: connection reset by peer'' 500),
           (proxy_server False True)
             \<lparr>sessions := [(''abc'', \<lparr>conn = 0, lastActive = 12, buffer = []\<rparr>)]\<rparr>,
           \<lparr>clock = 15, dialed = 1,
             trace = [Load ''abc'', Dial ''127.0.0.1:22'' (Inr 0), Store ''abc'' 0, Lock 0,
                      SetReadDeadline 0 50000015,
                      ConnRead 0 8192 (ReadErr (NetError False ''read: connection reset by peer'')),
                      Unlock 0],
             logs = []\<rparr>)"
  by (simp add: handler_defs input_defs env_reset_def drain.simps Millisecond_def)

lemma env_reset_second_facts:
  "fills (read_results env_reset_second 0)"
  "read_results env_reset_second (Suc 0) = ReadErr (NetError False ''read: connection reset by peer'')"
  "dial_result env_reset_second = None"
  by (simp_all add: env_reset_second_def env0_def fills_def)

text \<open>
  A GET whose first read fills the buffer and whose second read fails with a connection
  reset: the 8192 bytes read are dropped, the response is 500, and the session made for
  the request stays in the table.
\<close>
lemma eval_get_reset_second:
  "handleRequest (proxy_server False True) world0 env_reset_second
     (request ''GET'' [(''X-Ephemeral'', [''abc''])] [])
   = Some (Replied (http_Error (decorate new_Response) ''read: connection reset by peer'' 500),
           (proxy_server False True)
             \<lparr>sessions := [(''abc'', \<lparr>conn = 0, lastActive = 12, buffer = []\<rparr>)]\<rparr>,
           \<lparr>clock = 18, dialed = 1,
             trace = [Load ''abc'', Dial ''127.0.0.1:22'' (Inr 0), Store ''abc'' 0, Lock 0,
                      SetReadDeadline 0 50000015,
                      ConnRead 0 8192 (ReadOk (replicate 8192 0)),
                      SetReadDeadline 0 50000018,
                      ConnRead 0 8192 (ReadErr (NetError False ''read: connection reset by peer'')),
                      Unlock 0],
             logs = []\<rparr>)"
  by (simp add: handler_defs input_defs env_reset_second_def drain.simps Millisecond_def)

theorem hard_read_error_500_witness:
  "\<exists>out s1 wd1.
     handleRequest (proxy_server False True) world0 env_reset_second
       (request ''GET'' [(''X-Ephemeral'', [''abc''])] []) = Some (out, s1, wd1)
     \<and> ConnRead 0 8192 (ReadErr (NetError False ''read: connection reset by peer''))
         \<in> set (new_events world0 wd1)
     \<and> (\<exists>rep. out = Replied rep \<and> status rep = 500
              \<and> body rep = ''read: connection reset by peer'' @ [CHR 0x0A])
     \<and> (\<exists>session. map_of (sessions s1) ''abc'' = Some session \<and> conn session = 0)"
proof -
  let ?err = "NetError False ''read: connection reset by peer''"
  let ?r = "request ''GET'' [(''X-Ephemeral'', [''abc''])] []"
  have hard: "?err \<noteq> EOF" "\<not> Timeout ?err" by simp_all
  note inst = hard_read_error_500[OF hard, of env_reset_second "Suc 0" "proxy_server False True" world0 ?r]
  have sid: "session_id ?r = ''abc''" "Method ?r = ''GET''"
    by (simp_all add: request_facts)
  have srv: "\<not> isAppMode (proxy_server False True)" "allowDirect (proxy_server False True)"
    "\<not> debug (proxy_server False True)"
    "map_of (sessions (proxy_server False True)) ''abc'' = None" "dialed world0 = 0"
    by (simp_all add: input_defs)
  from inst[THEN conjunct2, THEN conjunct2] sid srv env_reset_second_facts
  obtain out s1 wd1 where h: "handleRequest (proxy_server False True) world0 env_reset_second ?r
                               = Some (out, s1, wd1)"
    and rd: "ConnRead 0 8192 (ReadErr ?err) \<in> set (new_events world0 wd1)"
    by auto
  from inst[THEN conjunct2, THEN conjunct1, rule_format, of out s1 wd1 0 8192] h rd sid
  have "(\<exists>rep. out = Replied rep \<and> status rep = 500
              \<and> body rep = ''read: connection reset by peer'' @ [CHR 0x0A])"
    "(\<exists>session. map_of (sessions s1) ''abc'' = Some session \<and> conn session = 0)"
    by simp_all
  with h rd show ?thesis by blast
qed

subsection \<open>POST\<close>






subsection \<open>The debug log calls and short session-ids\<close>

text \<open>
  C3, on the code. With \<open>-debug\<close>, a GET whose session-id is \<open>abc\<close> and whose drain
  ends with no bytes does not get the 200 with an empty body: the log call of line 316
  evaluates \<open>sessionID[:8]\<close> and the handler panics. Without \<open>-debug\<close> the same
  request gets it.
\<close>
theorem get_no_data_debug_short_id_panics:
  "handleRequest (proxy_server True True) world0 env0
     (request ''GET'' [(''X-Ephemeral'', [''abc''])] [])
   = Some (Panicked,
           (proxy_server True True)
             \<lparr>sessions := [(''abc'', \<lparr>conn = 0, lastActive = 12, buffer = []\<rparr>)]\<rparr>,
           \<lparr>clock = 15, dialed = 1,
             trace = [Load ''abc'', Dial ''127.0.0.1:22'' (Inr 0), Store ''abc'' 0, Lock 0,
                      SetReadDeadline 0 50000015,
                      ConnRead 0 8192 (ReadErr (NetError True ''i/o timeout'')), Unlock 0],
             logs = [Printf ''Request: %s %s from %s'' [S ''GET'', S ''/x'', S []],
                     Printf ''Headers: %+v'' [H [(''X-Ephemeral'', [''abc''])]]]\<rparr>)
   \<and> map_option fst (handleRequest (proxy_server False True) world0 env0
                        (request ''GET'' [(''X-Ephemeral'', [''abc''])] []))
     = Some (Replied (decorate new_Response))"
  by (simp add: handler_defs input_defs drain.simps Millisecond_def)

text \<open>
  C2, on the code. With \<open>-debug\<close> and the session-id \<open>abc\<close>, the loop ends at its
  first read although that read filled the 8192-byte buffer: the log call of line 291
  evaluates \<open>sessionID[:8]\<close> and the handler panics, so the second buffer the backend
  has ready is never read. Without \<open>-debug\<close> the loop reads three times, until the
  timeout.
\<close>
theorem get_full_read_debug_short_id_panics:
  "handleRequest (proxy_server True True) world0 env_fast
     (request ''GET'' [(''X-Ephemeral'', [''abc''])] [])
   = Some (Panicked,
           (proxy_server True True)
             \<lparr>sessions := [(''abc'', \<lparr>conn = 0, lastActive = 12, buffer = []\<rparr>)]\<rparr>,
           \<lparr>clock = 15, dialed = 1,
             trace = [Load ''abc'', Dial ''127.0.0.1:22'' (Inr 0), Store ''abc'' 0, Lock 0,
                      SetReadDeadline 0 50000015,
                      ConnRead 0 8192 (ReadOk (replicate 8192 0)), Unlock 0],
             logs = [Printf ''Request: %s %s from %s'' [S ''GET'', S ''/x'', S []],
                     Printf ''Headers: %+v'' [H [(''X-Ephemeral'', [''abc''])]]]\<rparr>)
   \<and> fills (read_results env_fast 0)
   \<and> map_option (\<lambda>res. trace (snd (snd res)))
        (handleRequest (proxy_server False True) world0 env_fast
           (request ''GET'' [(''X-Ephemeral'', [''abc''])] []))
     = Some [Load ''abc'', Dial ''127.0.0.1:22'' (Inr 0), Store ''abc'' 0, Lock 0,
             SetReadDeadline 0 50000015, ConnRead 0 8192 (ReadOk (replicate 8192 0)),
             SetReadDeadline 0 50000018, ConnRead 0 8192 (ReadOk (replicate 8192 0)),
             SetReadDeadline 0 50000021,
             ConnRead 0 8192 (ReadErr (NetError True ''i/o timeout'')), Unlock 0]"
  by (simp add: handler_defs input_defs env_fast_def drain.simps Millisecond_def fills_def)

text \<open>
  The same slip in the POST branch: with \<open>-debug\<close> and the session-id \<open>abc\<close>, a body
  that is not empty is never written.
\<close>
lemma post_debug_short_id_panics:
  "handleRequest (proxy_server True True) world0 env0
     (request ''POST'' [(''X-Ephemeral'', [''abc''])] [104, 105])
   = Some (Panicked,
           (proxy_server True True)
             \<lparr>sessions := [(''abc'', \<lparr>conn = 0, lastActive = 12, buffer = []\<rparr>)]\<rparr>,
           \<lparr>clock = 12, dialed = 1,
             trace = [Load ''abc'', Dial ''127.0.0.1:22'' (Inr 0), Store ''abc'' 0, Lock 0,
                      ReadAll, Unlock 0],
             logs = [Printf ''Request: %s %s from %s'' [S ''POST'', S ''/x'', S []],
                     Printf ''Headers: %+v'' [H [(''X-Ephemeral'', [''abc''])]]]\<rparr>)"
  by (simp add: handler_defs input_defs)

subsection \<open>Application mode\<close>

text \<open>
  C10, amended. In application mode every request is handed to \<open>handleApplication\<close>
  before the admission filter, the response headers and the session-id are looked at:
  the handler returns, the response is 200 or 500, never 403 or 400, the server and its
  session table are left as they are, and the only events are the calls on the
  subprocess and the start of the two goroutines. When the command has at least one
  field (\<open>strings.Fields\<close>, which splits at Unicode white space) and both pipes can be
  made, one subprocess is started for the request with these fields. Nothing of what it
  prints comes into the response, which is fixed by the errors alone: 200 with no header
  and an empty body when \<open>Start\<close> and \<open>Wait\<close> succeed, or 500 with the text of the first
  error as one line. When \<open>Start\<close> has succeeded the handler starts one goroutine on each
  pipe and goes on to \<open>Wait\<close> without waiting for them; a goroutine writes the lines it
  gets to read to the log, one call each, when \<open>debug\<close> is set, and writes nothing when it
  is not set. A command with no field is answered 500 with the line
  \<open>Invalid application command\<close> and no subprocess.
\<close>
theorem application_mode:
  assumes "isAppMode s"
  shows "\<exists>rep wd1. handleRequest s wd env r = Some (Replied rep, s, wd1)
          \<and> (status rep = 200 \<or> status rep = 500)
          \<and> new_events wd wd1 = app_events s env
          \<and> clock wd1 = clock wd \<and> dialed wd1 = dialed wd
          \<and> rep = (if strings_Fields (appCommand s) = []
                   then http_Error new_Response ''Invalid application command'' 500
                   else case app_error env of
                          None \<Rightarrow> \<lparr>status = 200, hdr = [], body = []\<rparr>
                        | Some e \<Rightarrow> http_Error new_Response e 500)
          \<and> (Go ''stdout'' \<in> set (new_events wd wd1) \<longleftrightarrow>
               CmdStart (strings_Fields (appCommand s)) None \<in> set (new_events wd wd1))
          \<and> (Go ''stderr'' \<in> set (new_events wd wd1) \<longleftrightarrow>
               CmdStart (strings_Fields (appCommand s)) None \<in> set (new_events wd wd1))
          \<and> (\<not> debug s \<longrightarrow> scanner s fmt errfmt lines err = [])
          \<and> (debug s \<longrightarrow>
               scanner s fmt errfmt lines err =
                 map (\<lambda>l. Printf fmt [S l]) lines
                 @ (case err of None \<Rightarrow> [] | Some e \<Rightarrow> [Printf errfmt [S e]]))"
proof -
  have "handleRequest s wd env r = Some (handleApplication s wd env r)"
    using assms by (simp add: handleRequest_def)
  moreover obtain out s1 wd1 where ha: "handleApplication s wd env r = (out, s1, wd1)"
    by (cases "handleApplication s wd env r") auto
  moreover from ha have "s1 = s"
    by (auto simp: handleApplication_def Let_def split: if_splits option.splits)
  moreover from ha obtain rep where rep: "out = Replied rep"
    "rep = (if strings_Fields (appCommand s) = []
                   then http_Error new_Response ''Invalid application command'' 500
                   else case app_error env of
                          None \<Rightarrow> \<lparr>status = 200, hdr = [], body = []\<rparr>
                        | Some e \<Rightarrow> http_Error new_Response e 500)"
    by (auto simp: handleApplication_def Let_def app_error_def new_Response_def
             split: if_splits option.splits)
  moreover from rep(2) have "status rep = 200 \<or> status rep = 500"
    by (auto simp: http_Error_def split: if_splits option.splits)
  moreover from ha have ev: "new_events wd wd1 = app_events s env"
    and "clock wd1 = clock wd" "dialed wd1 = dialed wd"
    by (auto simp: handleApplication_def Let_def app_events_def new_events_def
             split: if_splits option.splits)
  moreover have "Go ''stdout'' \<in> set (new_events wd wd1) \<longleftrightarrow>
               CmdStart (strings_Fields (appCommand s)) None \<in> set (new_events wd wd1)"
    "Go ''stderr'' \<in> set (new_events wd wd1) \<longleftrightarrow>
               CmdStart (strings_Fields (appCommand s)) None \<in> set (new_events wd wd1)"
    unfolding ev by (auto simp: app_events_def)
  moreover have "\<not> debug s \<longrightarrow> scanner s fmt errfmt lines err = []"
    by (simp add: scanner_def split: option.splits)
  moreover have "debug s \<longrightarrow>
               scanner s fmt errfmt lines err =
                 map (\<lambda>l. Printf fmt [S l]) lines
                 @ (case err of None \<Rightarrow> [] | Some e \<Rightarrow> [Printf errfmt [S e]])"
  proof
    assume d: "debug s"
    have "concat (map (\<lambda>l. [Printf fmt [S l]]) lines) = map (\<lambda>l. Printf fmt [S l]) lines"
      by (induction lines) simp_all
    with d show "scanner s fmt errfmt lines err =
                 map (\<lambda>l. Printf fmt [S l]) lines
                 @ (case err of None \<Rightarrow> [] | Some e \<Rightarrow> [Printf errfmt [S e]])"
      by (simp add: scanner_def split: option.splits)
  qed
  ultimately show ?thesis by (intro exI[of _ rep] exI[of _ wd1]) simp
qed

text \<open>
  The server of \<open>-a 'sshd -i' -debug\<close>: a request is answered 200 by a subprocess of its
  own, the two goroutines are started between \<open>Start\<close> and \<open>Wait\<close>, and the goroutine on
  the standard output logs the line \<open>hello\<close> when it reads it.
\<close>
theorem application_mode_witness:
  "isAppMode (app_server ''sshd -i'' True)
   \<and> (\<exists>rep wd1. handleRequest (app_server ''sshd -i'' True) world0 env0 (request ''GET'' [] [])
                   = Some (Replied rep, app_server ''sshd -i'' True, wd1)
         \<and> status rep = 200 \<and> hdr rep = [] \<and> body rep = []
         \<and> new_events world0 wd1
             = [CmdStart [''sshd'', ''-i''] None, Go ''stdout'', Go ''stderr'', CmdWait None])
   \<and> scanner (app_server ''sshd -i'' True) ''Application stdout: %s'' ''Error reading stdout: %v''
         [''hello''] None
       = [Printf ''Application stdout: %s'' [S ''hello'']]"
proof -
  have m: "isAppMode (app_server ''sshd -i'' True)" "debug (app_server ''sshd -i'' True)"
    and f: "strings_Fields (appCommand (app_server ''sshd -i'' True)) = [''sshd'', ''-i'']"
    by (simp_all add: app_server_def NewServer_def strings_Fields_def space_width_def starts_def)
  have e: "app_error env0 = None" "stdout_pipe env0 = None" "stderr_pipe env0 = None"
    "start_result env0 = None" "wait_result env0 = None"
    by (simp_all add: app_error_def env0_def)
  from application_mode[OF m(1), of world0 env0 "request ''GET'' [] []"
         "''Application stdout: %s''" "''Error reading stdout: %v''" "[''hello'']" None]
  obtain rep wd1 where r:
    "handleRequest (app_server ''sshd -i'' True) world0 env0 (request ''GET'' [] [])
       = Some (Replied rep, app_server ''sshd -i'' True, wd1)"
    "new_events world0 wd1 = app_events (app_server ''sshd -i'' True) env0"
    "rep = \<lparr>status = 200, hdr = [], body = []\<rparr>"
    and sc: "scanner (app_server ''sshd -i'' True) ''Application stdout: %s''
               ''Error reading stdout: %v'' [''hello''] None
             = [Printf ''Application stdout: %s'' [S ''hello'']]"
    using m f e by auto
  have "\<exists>rep wd1. handleRequest (app_server ''sshd -i'' True) world0 env0 (request ''GET'' [] [])
                   = Some (Replied rep, app_server ''sshd -i'' True, wd1)
         \<and> status rep = 200 \<and> hdr rep = [] \<and> body rep = []
         \<and> new_events world0 wd1
             = [CmdStart [''sshd'', ''-i''] None, Go ''stdout'', Go ''stderr'', CmdWait None]"
    using r by (intro exI[of _ rep] exI[of _ wd1]) (simp add: app_events_def f e)
  with m(1) sc show ?thesis by (intro conjI)
qed

text \<open>
  The fields of a command are cut at Unicode white space: a no-break space (the bytes
  C2 A0) and an ideographic space (E3 80 80) separate fields as a space does, and a
  command that is one no-break space has no field, so that it is answered as the blank
  command is.
\<close>
lemma strings_Fields_unicode:
  "strings_Fields (''sshd'' @ [CHR 0xC2, CHR 0xA0] @ ''-i'' @ [CHR 0xE3, CHR 0x80, CHR 0x80])
   = [''sshd'', ''-i'']"
  "strings_Fields [CHR 0xC2, CHR 0xA0] = []"
  "strings_Fields [CHR 0xC2, CHR 0x41, CHR 0xA0] = [[CHR 0xC2, CHR 0x41, CHR 0xA0]]"
  by (simp_all add: strings_Fields_def space_width_def starts_def)

lemma no_break_space_command_no_subprocess:
  "handleRequest (app_server [CHR 0xC2, CHR 0xA0] False) world0 env0 (request ''GET'' [] [])
     = Some (Replied \<lparr>status = 500,
                      hdr = [(''Content-Type'', ''text/plain; charset=utf-8''),
                             (''X-Content-Type-Options'', ''nosniff'')],
                      body = ''Invalid application command'' @ [CHR 0x0A]\<rparr>,
             app_server [CHR 0xC2, CHR 0xA0] False, world0)"
  by (simp add: handler_defs input_defs app_server_def)

text \<open>
  C10 as stated fails for a command of white space only (\<open>-a ' '\<close>): the server is in
  application mode, no subprocess is started, and the response is 500 with the line
  \<open>Invalid application command\<close>.
\<close>
theorem blank_command_no_subprocess:
  "isAppMode (app_server '' '' False)
   \<and> handleRequest (app_server '' '' False) world0 env0 (request ''GET'' [] [])
     = Some (Replied \<lparr>status = 500,
                      hdr = [(''Content-Type'', ''text/plain; charset=utf-8''),
                             (''X-Content-Type-Options'', ''nosniff'')],
                      body = ''Invalid application command'' @ [CHR 0x0A]\<rparr>,
             app_server '' '' False, world0)"
  by (simp add: handler_defs input_defs app_server_def)

subsection \<open>The reaper\<close>

lemma fold_reap_entry:
  "fold (reap_entry now) xs (s, wd) =
     (s\<lparr>sessions := filter (\<lambda>kv. fst kv \<notin> fst ` {e \<in> set xs. expired now (snd e)}) (sessions s)\<rparr>,
      emit (concat (map (reap_events now) xs)) wd)"
proof (induction xs arbitrary: s wd)
  case Nil
  show ?case by (simp add: emit_def)
next
  case (Cons kv xs)
  obtain k session where kv: "kv = (k, session)" by (cases kv)
  show ?case
  proof (cases "expired now session")
    case True
    then have step: "reap_entry now kv (s, wd) =
        (s\<lparr>sessions := AList.delete k (sessions s)\<rparr>,
         emit [Lock (conn session), ConnClose (conn session), Delete k, Unlock (conn session)] wd)"
      by (simp add: reap_entry_def kv)
    have set_eq: "fst ` {e \<in> set (kv # xs). expired now (snd e)}
                = insert k (fst ` {e \<in> set xs. expired now (snd e)})"
      using True by (force simp: kv)
    have "fold (reap_entry now) (kv # xs) (s, wd) = fold (reap_entry now) xs (reap_entry now kv (s, wd))"
      by simp
    also have "\<dots> = (s\<lparr>sessions := filter (\<lambda>kv. fst kv \<notin> fst ` {e \<in> set xs. expired now (snd e)})
                                   (AList.delete k (sessions s))\<rparr>,
                     emit (concat (map (reap_events now) xs))
                       (emit [Lock (conn session), ConnClose (conn session), Delete k,
                              Unlock (conn session)] wd))"
      unfolding step Cons.IH by simp
    also have "filter (\<lambda>kv. fst kv \<notin> fst ` {e \<in> set xs. expired now (snd e)}) (AList.delete k (sessions s))
             = filter (\<lambda>x. fst x \<notin> fst ` {e \<in> set (kv # xs). expired now (snd e)}) (sessions s)"
      unfolding set_eq by (auto simp: AList.delete_eq intro: filter_cong)
    also have "emit (concat (map (reap_events now) xs))
                 (emit [Lock (conn session), ConnClose (conn session), Delete k,
                        Unlock (conn session)] wd)
             = emit (concat (map (reap_events now) (kv # xs))) wd"
      using True by (simp add: emit_def reap_events_def kv)
    finally show ?thesis .
  next
    case False
    then have step: "reap_entry now kv (s, wd) =
        (s, emit [Lock (conn session), Unlock (conn session)] wd)"
      by (simp add: reap_entry_def kv)
    have set_eq: "fst ` {e \<in> set (kv # xs). expired now (snd e)}
                = fst ` {e \<in> set xs. expired now (snd e)}"
      using False by (auto simp: kv)
    have "fold (reap_entry now) (kv # xs) (s, wd) = fold (reap_entry now) xs (reap_entry now kv (s, wd))"
      by simp
    also have "\<dots> = (s\<lparr>sessions := filter (\<lambda>kv. fst kv \<notin> fst ` {e \<in> set xs. expired now (snd e)})
                                   (sessions s)\<rparr>,
                     emit (concat (map (reap_events now) xs))
                       (emit [Lock (conn session), Unlock (conn session)] wd))"
      unfolding step Cons.IH by simp
    also have "emit (concat (map (reap_events now) xs))
                 (emit [Lock (conn session), Unlock (conn session)] wd)
             = emit (concat (map (reap_events now) (kv # xs))) wd"
      using False by (simp add: emit_def reap_events_def kv)
    finally show ?thesis unfolding set_eq .
  qed
qed

lemma expired_iff: "expired now session \<longleftrightarrow> lastActive session + 5 * Minute < now"
  by (auto simp: expired_def)

text \<open>
  C8. A pass of the reaper starts a minute or more after the clock was last read. Of
  a table with one entry per session-id and one connection per entry, it removes
  exactly the records whose \<open>lastActive\<close> lies strictly more than five minutes before
  the time the pass reads, and calls \<open>Close\<close> on their connections; every other record
  stays in the table, and \<open>Close\<close> is not called on its connection. Each record is
  looked at between \<open>Lock\<close> and \<open>Unlock\<close> of its own mutex.
\<close>
theorem reaper_pass:
  assumes keys: "distinct (map fst (sessions s))"
    and conns: "distinct (map (\<lambda>kv. conn (snd kv)) (sessions s))"
    and pass: "cleanupSessions_pass late s wd = (s1, wd1)"
  shows "clock wd1 = clock wd + Minute + late
       \<and> sessions s1 = filter (\<lambda>kv. \<not> expired (clock wd1) (snd kv)) (sessions s)
       \<and> new_events wd wd1 = concat (map (reap_events (clock wd1)) (sessions s))
       \<and> (\<forall>k session. (k, session) \<in> set (sessions s) \<longrightarrow>
            (expired (clock wd1) session \<longleftrightarrow> lastActive session + 5 * Minute < clock wd1)
            \<and> (if expired (clock wd1) session
                then map_of (sessions s1) k = None
                     \<and> ConnClose (conn session) \<in> set (new_events wd wd1)
                     \<and> Delete k \<in> set (new_events wd wd1)
                else map_of (sessions s1) k = Some session
                     \<and> ConnClose (conn session) \<notin> set (new_events wd wd1)
                     \<and> Delete k \<notin> set (new_events wd wd1)))"
proof -
  let ?now = "clock wd + Minute + late"
  from pass have s1: "s1 = s\<lparr>sessions := filter (\<lambda>kv. fst kv \<notin> fst ` {e \<in> set (sessions s). expired ?now (snd e)}) (sessions s)\<rparr>"
    and wd1: "wd1 = emit (concat (map (reap_events ?now) (sessions s))) (tick (Minute + late) wd)"
    by (simp_all add: cleanupSessions_pass_def Let_def fold_reap_entry add.assoc)
  from wd1 have clk: "clock wd1 = ?now" by (simp add: add.assoc)
  from wd1 have ev: "new_events wd wd1 = concat (map (reap_events ?now) (sessions s))"
    by (simp add: new_events_def)
  have inj_k: "inj_on fst (set (sessions s))"
    using keys by (simp add: distinct_map)
  have uniq: "kv = e" if "kv \<in> set (sessions s)" "e \<in> set (sessions s)" "fst kv = fst e" for kv e
    using inj_onD[OF inj_k that(3) that(1) that(2)] .
  have same: "(fst kv \<notin> fst ` {e \<in> set (sessions s). expired ?now (snd e)}) = (\<not> expired ?now (snd kv))"
    if kv: "kv \<in> set (sessions s)" for kv
  proof
    assume n: "fst kv \<notin> fst ` {e \<in> set (sessions s). expired ?now (snd e)}"
    show "\<not> expired ?now (snd kv)"
    proof
      assume "expired ?now (snd kv)"
      with kv have "kv \<in> {e \<in> set (sessions s). expired ?now (snd e)}" by simp
      then have "fst kv \<in> fst ` {e \<in> set (sessions s). expired ?now (snd e)}" by (rule imageI)
      with n show False by contradiction
    qed
  next
    assume n: "\<not> expired ?now (snd kv)"
    show "fst kv \<notin> fst ` {e \<in> set (sessions s). expired ?now (snd e)}"
    proof
      assume "fst kv \<in> fst ` {e \<in> set (sessions s). expired ?now (snd e)}"
      then obtain e where e: "e \<in> set (sessions s)" "expired ?now (snd e)" "fst kv = fst e"
        by blast
      from uniq[OF kv e(1) e(3)] e(2) n show False by simp
    qed
  qed
  have tab: "sessions s1 = filter (\<lambda>kv. \<not> expired ?now (snd kv)) (sessions s)"
    unfolding s1 using same by (simp cong: filter_cong)
  have dk: "distinct (map fst (sessions s1))"
    unfolding tab using keys by (simp add: distinct_map_filter)
  have inj_c: "inj_on (\<lambda>kv. conn (snd kv)) (set (sessions s))"
    using conns by (simp add: distinct_map)
  have uconn: "kv = e" if "kv \<in> set (sessions s)" "e \<in> set (sessions s)"
      "conn (snd kv) = conn (snd e)" for kv e
    using inj_onD[OF inj_c that(3) that(1) that(2)] .
  have closes: "\<And>c. ConnClose c \<in> set (concat (map (reap_events ?now) (sessions s)))
      \<longleftrightarrow> (\<exists>kv \<in> set (sessions s). expired ?now (snd kv) \<and> conn (snd kv) = c)"
    by (auto simp: reap_events_def split: if_splits)
  have deletes: "\<And>k. Delete k \<in> set (concat (map (reap_events ?now) (sessions s)))
      \<longleftrightarrow> (\<exists>kv \<in> set (sessions s). expired ?now (snd kv) \<and> fst kv = k)"
    by (auto simp: reap_events_def split: if_splits)
  have each: "\<forall>k session. (k, session) \<in> set (sessions s) \<longrightarrow>
            (expired ?now session \<longleftrightarrow> lastActive session + 5 * Minute < ?now)
            \<and> (if expired ?now session
                then map_of (sessions s1) k = None
                     \<and> ConnClose (conn session) \<in> set (new_events wd wd1)
                     \<and> Delete k \<in> set (new_events wd wd1)
                else map_of (sessions s1) k = Some session
                     \<and> ConnClose (conn session) \<notin> set (new_events wd wd1)
                     \<and> Delete k \<notin> set (new_events wd wd1))"
  proof (intro allI impI)
    fix k session assume m: "(k, session) \<in> set (sessions s)"
    show "(expired ?now session \<longleftrightarrow> lastActive session + 5 * Minute < ?now)
            \<and> (if expired ?now session
                then map_of (sessions s1) k = None
                     \<and> ConnClose (conn session) \<in> set (new_events wd wd1)
                     \<and> Delete k \<in> set (new_events wd wd1)
                else map_of (sessions s1) k = Some session
                     \<and> ConnClose (conn session) \<notin> set (new_events wd wd1)
                     \<and> Delete k \<notin> set (new_events wd wd1))"
    proof (cases "expired ?now session")
      case True
      have "k \<notin> fst ` set (sessions s1)"
      proof
        assume "k \<in> fst ` set (sessions s1)"
        then obtain e where e: "e \<in> set (sessions s)" "\<not> expired ?now (snd e)" "fst e = k"
          unfolding tab by auto
        with uniq[OF m e(1)] True show False by auto
      qed
      then have "map_of (sessions s1) k = None" by (simp add: map_of_eq_None_iff)
      moreover have "ConnClose (conn session) \<in> set (new_events wd wd1)"
        "Delete k \<in> set (new_events wd wd1)"
        unfolding ev closes deletes using m True by force+
      ultimately show ?thesis using True by (simp add: expired_iff)
    next
      case False
      with m have "(k, session) \<in> set (sessions s1)" unfolding tab by simp
      with dk have "map_of (sessions s1) k = Some session" by simp
      moreover have "ConnClose (conn session) \<notin> set (new_events wd wd1)"
      proof
        assume "ConnClose (conn session) \<in> set (new_events wd wd1)"
        then obtain kv where kv: "kv \<in> set (sessions s)" "expired ?now (snd kv)"
          "conn (snd kv) = conn session" unfolding ev closes by auto
        from uconn[OF kv(1) m] kv(3) have "kv = (k, session)" by simp
        with kv(2) False show False by simp
      qed
      moreover have "Delete k \<notin> set (new_events wd wd1)"
      proof
        assume "Delete k \<in> set (new_events wd wd1)"
        then obtain kv where kv: "kv \<in> set (sessions s)" "expired ?now (snd kv)"
          "fst kv = k" unfolding ev deletes by auto
        from uniq[OF kv(1) m] kv(3) have "kv = (k, session)" by simp
        with kv(2) False show False by simp
      qed
      ultimately show ?thesis using False by (simp add: expired_iff)
    qed
  qed
  show ?thesis by (simp only: clk) (intro conjI refl tab ev each)
qed


theorem reaper_pass_witness:
  "distinct (map fst (sessions idle_server))
   \<and> distinct (map (\<lambda>kv. conn (snd kv)) (sessions idle_server))
   \<and> clock (snd (cleanupSessions_pass 0 idle_server world5)) = 6 * Minute
   \<and> sessions (fst (cleanupSessions_pass 0 idle_server world5))
     = [(''edge'', \<lparr>conn = 1, lastActive = Minute, buffer = []\<rparr>),
        (''fresh'', \<lparr>conn = 2, lastActive = Minute + 1, buffer = []\<rparr>)]
   \<and> new_events world5 (snd (cleanupSessions_pass 0 idle_server world5))
     = [Lock 0, ConnClose 0, Delete ''old'', Unlock 0, Lock 1, Unlock 1, Lock 2, Unlock 2]"
proof -
  have k: "distinct (map fst (sessions idle_server))"
    and c: "distinct (map (\<lambda>kv. conn (snd kv)) (sessions idle_server))"
    by (simp_all add: idle_server_def)
  have p: "cleanupSessions_pass 0 idle_server world5
         = (fst (cleanupSessions_pass 0 idle_server world5), snd (cleanupSessions_pass 0 idle_server world5))"
    by simp
  have clk: "clock world5 + Minute + 0 = 6 * Minute" by (simp add: world5_def)
  from reaper_pass[OF k c p]
  have "clock (snd (cleanupSessions_pass 0 idle_server world5)) = 6 * Minute"
    "sessions (fst (cleanupSessions_pass 0 idle_server world5))
       = filter (\<lambda>kv. \<not> expired (6 * Minute) (snd kv)) (sessions idle_server)"
    "new_events world5 (snd (cleanupSessions_pass 0 idle_server world5))
       = concat (map (reap_events (6 * Minute)) (sessions idle_server))"
    unfolding clk by simp_all
  then show ?thesis
    using k c
    by (simp add: idle_server_def expired_def reap_events_def Minute_def Millisecond_def)
qed

subsection \<open>What a call does to the table\<close>

lemma World_handlePost [simp]:
  "clock (snd (handlePost s wd env r w sid session)) = clock wd"
  "dialed (snd (handlePost s wd env r w sid session)) = dialed wd"
  by (auto simp: handlePost_def Let_def split: sum.splits option.splits)













lemma table_ok_NewServer: "table_ok (NewServer h p cmd dbg direct) wd"
  by (simp add: table_ok_def NewServer_def)


subsection \<open>The time stamp of a record\<close>







subsection \<open>Two requests creating the same session\<close>

text \<open>Run alone, the three calls of a goroutine are the handler's \<open>acquire\<close>.\<close>
lemma acquire_by_steps:
  "acquire s wd env sid =
     (case race [True, True, True] sid env env (AtLoad, AtLoad) s wd of
        ((Holding session, p), s1, wd1) \<Rightarrow> (Inr session, s1, wd1)
      | ((DialFailed e, p), s1, wd1) \<Rightarrow> (Inl e, s1, wd1)
      | ((q, p), s1, wd1) \<Rightarrow> (Inl [], s1, wd1))"
  by (simp add: acquire_def acquire_step_def sessions_Load_def net_Dial_def sessions_Store_def
        Let_def split: option.splits)

lemma handlePost_never_closes:
  "\<exists>es. trace (snd (handlePost s wd env r w sid session)) = trace wd @ es
        \<and> ConnClose c \<notin> set es"
  by (auto simp: handlePost_def Let_def split: sum.splits if_splits option.splits)

text \<open>No call of the handler closes a connection: \<open>Close\<close> is the reaper's alone.\<close>
lemma handleRequest_never_closes:
  assumes h: "handleRequest s wd env r = Some (out, s1, wd1)"
  shows "ConnClose c \<notin> set (new_events wd wd1)"
proof (cases "isAppMode s")
  case True
  with h show ?thesis
    by (auto simp: handleRequest_def handleApplication_def Let_def new_events_def
             split: if_splits option.splits)
next
  case proxy: False
  show ?thesis
  proof (cases "Header_Get (Header r) ''Cf-Connecting-Ip'' \<noteq> [] \<or> allowDirect s")
    case False
    with proxy h show ?thesis
      by (auto simp: handleRequest_def Let_def new_events_def)
  next
    case admitted: True
    show ?thesis
    proof (cases "session_id r = []")
      case True
      with proxy admitted h show ?thesis
        by (auto simp: handleRequest_def Let_def new_events_def)
    next
      case sid: False
      obtain res s2 wd2 where acq: "acquire s (logged_in s r wd) env (session_id r) = (res, s2, wd2)"
        by (cases "acquire s (logged_in s r wd) env (session_id r)") auto
      show ?thesis
      proof (cases res)
        case (Inl e)
        from served_dial_failed[OF proxy admitted sid acq[unfolded Inl]] h
             acquire_Inl[OF acq[unfolded Inl]]
        show ?thesis by (auto simp: new_events_def)
      next
        case (Inr session)
        note acq = acq[unfolded Inr]
        from acquire_Inr[OF acq] obtain pre where pre: "trace wd2 = trace wd @ pre"
          "ConnClose c \<notin> set pre"
          by auto
        show ?thesis
        proof (cases "Method r = ''POST''")
          case True
          let ?res = "handlePost (s2\<lparr>sessions := AList.update (session_id r) (session\<lparr>lastActive := clock wd2 + now_lock env\<rparr>) (sessions s2)\<rparr>)
              (tick (now_lock env) (emit [Lock (conn session)] wd2)) env r (decorate new_Response) (session_id r)
              (session\<lparr>lastActive := clock wd2 + now_lock env\<rparr>)"
          from served_post[OF proxy admitted sid acq True] h
          have wd1: "wd1 = emit [Unlock (conn session)] (snd ?res)" by (simp add: Let_def)
          from handlePost_never_closes[of _ "tick (now_lock env) (emit [Lock (conn session)] wd2)"]
          obtain es where "trace (snd ?res) = trace wd2 @ [Lock (conn session)] @ es"
            "ConnClose c \<notin> set es" by fastforce
          with wd1 pre show ?thesis by (simp add: new_events_def)
        next
          case False
          from get_returns[OF proxy admitted sid acq False h] obtain n where
            tr: "trace wd1 = trace wd2 @ [Lock (conn session)]
                       @ drain_events (conn session) env (clock wd2 + now_lock env) 0 (Suc n)
                       @ [Unlock (conn session)]"
            by blast
          with pre drain_events_kinds[of "ConnClose c" "conn session" env "clock wd2 + now_lock env" 0 "Suc n"]
          show ?thesis by (auto simp: new_events_def)
        qed
      qed
    qed
  qed
qed

text \<open>
  C9, on the code. Two requests with the session-id \<open>abcdefgh\<close>, which the table does
  not hold, both call \<open>Load\<close> before either calls \<open>Store\<close>: both miss, both dial, and
  both store. The second \<open>Store\<close> replaces the first record, so the table refers to
  connection 1 only; connection 0 was not closed by the request that dialled it, which
  goes on with it, and no call of the handler ever closes it.
\<close>
theorem racing_requests_both_dial:
  "race [True, False, True, False, True, False] ''abcdefgh'' env0 env0 (AtLoad, AtLoad)
     (proxy_server False True) world0
   = ((Holding \<lparr>conn = 0, lastActive = 5, buffer = []\<rparr>,
       Holding \<lparr>conn = 1, lastActive = 10, buffer = []\<rparr>),
      (proxy_server False True)
        \<lparr>sessions := [(''abcdefgh'', \<lparr>conn = 1, lastActive = 10, buffer = []\<rparr>)]\<rparr>,
      \<lparr>clock = 10, dialed = 2,
        trace = [Load ''abcdefgh'', Load ''abcdefgh'',
                 Dial ''127.0.0.1:22'' (Inr 0), Dial ''127.0.0.1:22'' (Inr 1),
                 Store ''abcdefgh'' 0, Store ''abcdefgh'' 1],
        logs = []\<rparr>)"
  by (simp add: acquire_step_def sessions_Load_def net_Dial_def sessions_Store_def Let_def
        emit_def tick_def input_defs)

subsection \<open>The drain loop and the body of a GET, where no log call panics\<close>

lemma fromHexChar_hextable:
  assumes "n < 16"
  shows "fromHexChar (hextable ! n) = Some (of_nat n)"
proof -
  have "\<forall>n \<in> set [0..<16]. fromHexChar (hextable ! n) = Some (of_nat n)"
    by (simp add: upt_rec fromHexChar_def hextable_def)
  with assms show ?thesis by simp
qed

lemma hex_byte_halves:
  fixes b :: byte
  shows "unat (drop_bit 4 b) < 16" and "unat (b AND 0x0f) < 16"
proof -
  have "unat b < 256" using unsigned_less[of b, where 'a = nat] by simp
  moreover have "unat (drop_bit 4 b) = drop_bit 4 (unat b)" by (rule unat_drop_bit_eq)
  moreover have "drop_bit 4 (unat b) = unat b div 2 ^ 4" by (rule drop_bit_eq_div)
  ultimately show "unat (drop_bit 4 b) < 16" by (simp only:) simp
  have "b AND 0x0f = take_bit 4 b" by (simp add: take_bit_eq_mask mask_numeral)
  moreover have "take_bit 4 (unat b) < 2 ^ 4" by (rule take_bit_nat_less_exp)
  ultimately show "unat (b AND 0x0f) < 16" by (simp add: unsigned_take_bit_eq)
qed

lemma hex_byte_joined:
  fixes b :: byte
  shows "push_bit 4 (drop_bit 4 b) OR (b AND 0x0f) = b"
proof -
  have m: "b AND 0x0f = take_bit 4 b" by (simp add: take_bit_eq_mask mask_numeral)
  have "push_bit 4 (drop_bit 4 b) AND take_bit 4 b = 0"
    by (rule bit_eqI) (simp add: bit_and_iff bit_push_bit_iff bit_take_bit_iff)
  then have "push_bit 4 (drop_bit 4 b) OR take_bit 4 b = push_bit 4 (drop_bit 4 b) + take_bit 4 b"
    by (rule disjunctive_add_eq_or [symmetric])
  also have "\<dots> = b" by (rule bits_ident)
  finally show ?thesis unfolding m .
qed

lemma hex_DecodeString_byte:
  "hex_DecodeString (hex_byte b @ cs) = map_option ((#) b) (hex_DecodeString cs)"
proof -
  have hi: "fromHexChar (hextable ! unat (drop_bit 4 b)) = Some (drop_bit 4 b)"
    using fromHexChar_hextable[OF hex_byte_halves(1), of b] by simp
  have lo: "fromHexChar (hextable ! unat (b AND 0x0f)) = Some (b AND 0x0f)"
    using fromHexChar_hextable[OF hex_byte_halves(2), of b] by simp
  show ?thesis
    by (cases "hex_DecodeString cs") (simp_all add: hex_byte_def hi lo hex_byte_joined)
qed

text \<open>Decoding what \<open>hex.EncodeToString\<close> wrote gives the bytes back.\<close>
lemma hex_roundtrip: "hex_DecodeString (hex_EncodeToString bs) = Some bs"
  by (induction bs) (simp_all add: hex_EncodeToString_def hex_DecodeString_byte)

lemma hex_lowercase: "set (hex_EncodeToString bs) \<subseteq> set hextable"
proof -
  have l: "length hextable = 16" by (simp add: hextable_def)
  have "set (hex_byte b) \<subseteq> set hextable" for b
  proof -
    have "hextable ! unat (drop_bit 4 b) \<in> set hextable"
      by (rule nth_mem) (simp add: l hex_byte_halves)
    moreover have "hextable ! unat (b AND 0x0f) \<in> set hextable"
      by (rule nth_mem) (simp add: l hex_byte_halves)
    ultimately show ?thesis by (simp add: hex_byte_def)
  qed
  then show ?thesis
    by (auto simp: hex_EncodeToString_def)
qed

lemma received_last_error:
  "conn_Read 8192 (read_results env (k + n)) = ReadErr e \<Longrightarrow>
     received env k (Suc n) = received env k n"
  by (subst received_snoc) (simp add: chunk_of_def)

text \<open>
  A GET that is answered 200 carries the lowercase hexadecimal form of all the bytes
  its reads returned, in the order of the reads; decoding the body gives these bytes
  back, and the body is empty when there were none.
\<close>
lemma get_body_is_hex:
  assumes proxy: "\<not> isAppMode s"
    and admitted: "Header_Get (Header r) ''Cf-Connecting-Ip'' \<noteq> [] \<or> allowDirect s"
    and sid: "session_id r \<noteq> []"
    and acq: "acquire s (logged_in s r wd) env (session_id r) = (Inr session, s2, wd2)"
    and get: "Method r \<noteq> ''POST''"
    and h: "handleRequest s wd env r = Some (Replied rep, s1, wd1)"
    and ok: "status rep = 200"
  shows "\<exists>n. trace wd1 = trace wd2 @ [Lock (conn session)]
                  @ drain_events (conn session) env (clock wd2 + now_lock env) 0 n
                  @ [Unlock (conn session)]
           \<and> body rep = hex_EncodeToString (received env 0 n)
           \<and> hex_DecodeString (body rep) = Some (received env 0 n)
           \<and> set (body rep) \<subseteq> set hextable"
proof -
  from get_returns[OF proxy admitted sid acq get h] obtain n wdx where
    tr: "trace wd1 = trace wd2 @ [Lock (conn session)]
                       @ drain_events (conn session) env (clock wd2 + now_lock env) 0 (Suc n)
                       @ [Unlock (conn session)]"
    and out: "Replied rep = fst (respond s r (decorate new_Response) (session_id r)
                          (drain_ends s (session_id r) env 0 [] n) wdx)"
    by blast
  have w: "status (decorate new_Response) = 200" "body (decorate new_Response) = []"
    by (simp_all add: decorate_def Header_Set_def new_Response_def)
  have "drain_ends s (session_id r) env 0 [] n = Drained (received env 0 (Suc n))"
  proof (cases "conn_Read 8192 (read_results env n)")
    case (ReadErr e)
    have "\<not> (e \<noteq> EOF \<and> \<not> Timeout e)"
    proof
      assume "e \<noteq> EOF \<and> \<not> Timeout e"
      with ReadErr have "drain_ends s (session_id r) env 0 [] n = ReadFailed e"
        by (simp add: drain_ends_def)
      with out have "rep = http_Error (decorate new_Response) (Error_text e) 500"
        by (simp add: respond_def)
      with ok show False by (simp add: body_http_Error_decorate)
    qed
    with ReadErr received_last_error[of env 0 n e] show ?thesis
      by (simp add: drain_ends_def)
  next
    case (ReadOk ch)
    have "\<not> (ch \<noteq> [] \<and> debug s \<and> length (session_id r) < 8)"
    proof
      assume "ch \<noteq> [] \<and> debug s \<and> length (session_id r) < 8"
      with ReadOk have "drain_ends s (session_id r) env 0 [] n = SliceOutOfRange"
        by (simp add: drain_ends_def)
      with out show False by (simp add: respond_def)
    qed
    with ReadOk show ?thesis by (simp add: drain_ends_def)
  qed
  with out have "body rep = hex_EncodeToString (received env 0 (Suc n))"
    by (auto simp: respond_def Let_def w w_Write_def hex_EncodeToString_def split: if_splits)
  with tr show ?thesis
    by (intro exI[of _ "Suc n"]) (simp add: hex_roundtrip hex_lowercase)
qed

text \<open>
  The loop of a GET runs up to the first read that does not fill the buffer, and a GET
  whose reads all fill the buffer never returns.
\<close>
lemma get_loop_to_first_short_read:
  assumes proxy: "\<not> isAppMode s"
    and admitted: "Header_Get (Header r) ''Cf-Connecting-Ip'' \<noteq> [] \<or> allowDirect s"
    and sid: "session_id r \<noteq> []"
    and acq: "acquire s (logged_in s r wd) env (session_id r) = (Inr session, s2, wd2)"
    and get: "Method r \<noteq> ''POST''"
    and noslip: "\<not> (debug s \<and> length (session_id r) < 8)"
    and full: "\<forall>j<n. fills (read_results env j)"
    and stop: "\<not> fills (read_results env n)"
  shows "\<exists>out s1 wd1. handleRequest s wd env r = Some (out, s1, wd1)
          \<and> trace wd1 = trace wd2 @ [Lock (conn session)]
                @ drain_events (conn session) env (clock wd2 + now_lock env) 0 (Suc n)
                @ [Unlock (conn session)]"
proof -
  let ?s3 = "s2\<lparr>sessions := AList.update (session_id r)
                 (session\<lparr>lastActive := clock wd2 + now_lock env\<rparr>) (sessions s2)\<rparr>"
  from acquire_Inr[OF acq] have "s2 = s\<lparr>sessions := sessions s2\<rparr>" by blast
  then have dbg: "debug ?s3 = debug s"
    by (metis Server.select_convs(4) Server.surjective Server.update_convs(1))
  from full stop noslip dbg
  have "\<exists>y. drain ?s3 (session_id r) (conn session) env 0 []
              (tick (now_lock env) (emit [Lock (conn session)] wd2)) = Some y"
    by (intro drain_stops[where n = n]) simp_all
  then obtain out s1 wd1 where h: "handleRequest s wd env r = Some (out, s1, wd1)"
    unfolding served_get[OF proxy admitted sid acq get] by (auto simp: Let_def)
  from get_returns[OF proxy admitted sid acq get h] obtain m where
    tr: "trace wd1 = trace wd2 @ [Lock (conn session)]
                       @ drain_events (conn session) env (clock wd2 + now_lock env) 0 (Suc m)
                       @ [Unlock (conn session)]"
    and fm: "\<forall>j<m. fills (read_results env j)"
    and sm: "fills (read_results env m) \<longrightarrow> debug s \<and> length (session_id r) < 8"
    by blast
  have "m = n"
  proof (rule ccontr)
    assume "m \<noteq> n"
    then consider "m < n" | "n < m" by linarith
    then show False
    proof cases
      case 1
      with full sm noslip show False by blast
    next
      case 2
      with fm stop show False by blast
    qed
  qed
  with h tr show ?thesis by blast
qed

lemma get_loop_without_end:
  assumes proxy: "\<not> isAppMode s"
    and admitted: "Header_Get (Header r) ''Cf-Connecting-Ip'' \<noteq> [] \<or> allowDirect s"
    and sid: "session_id r \<noteq> []"
    and acq: "acquire s (logged_in s r wd) env (session_id r) = (Inr session, s2, wd2)"
    and get: "Method r \<noteq> ''POST''"
    and noslip: "\<not> (debug s \<and> length (session_id r) < 8)"
    and full: "\<forall>j. fills (read_results env j)"
  shows "handleRequest s wd env r = None"
proof (rule ccontr)
  assume "handleRequest s wd env r \<noteq> None"
  then obtain out s1 wd1 where h: "handleRequest s wd env r = Some (out, s1, wd1)" by auto
  from get_returns[OF proxy admitted sid acq get h] obtain m where
    "fills (read_results env m) \<longrightarrow> debug s \<and> length (session_id r) < 8" by blast
  with full noslip show False by blast
qed

end
